theory Spec2Isabelle
  imports Complex_Main "HOL-Library.Stream" "HOL-Library.Monad_Syntax" "HOL-Library.State_Monad"
begin

section \<open>The lattice\<close>

text \<open>
  The lattice is a NumPy array of shape (L, L) holding 8-bit integers. It is modelled as a
  list of rows of integers; \<open>lattice.shape[0]\<close> is the number of rows. Every cell the
  program ever stores is -1 or +1, and the sums and products it forms of them stay far
  inside the 8-bit range, so the cells are plain integers here. Quantities that are
  64-bit floats in the program (J, h, beta, T, k_bias, M0 and the energies) are real
  numbers: rounding is not modelled.
\<close>

type_synonym lattice = "int list list"

definition shape0 :: "lattice \<Rightarrow> int" where
  "shape0 lattice = int (length lattice)"

text \<open>\<open>lattice[i, j]\<close> for a site whose indices lie in range.\<close>

definition cell :: "lattice \<Rightarrow> int \<Rightarrow> int \<Rightarrow> int" where
  "cell lattice i j = lattice ! nat i ! nat j"

text \<open>\<open>lattice[i, j] = v\<close>.\<close>

definition set_cell :: "lattice \<Rightarrow> int \<Rightarrow> int \<Rightarrow> int \<Rightarrow> lattice" where
  "set_cell lattice i j v = lattice[nat i := (lattice ! nat i)[nat j := v]]"

text \<open>\<open>lattice.sum()\<close>.\<close>

definition total_sum :: "lattice \<Rightarrow> int" where
  "total_sum lattice = sum_list (map sum_list lattice)"

definition is_spin :: "int \<Rightarrow> bool" where
  "is_spin s \<longleftrightarrow> s = 1 \<or> s = - 1"

text \<open>An L by L lattice all of whose cells are spins.\<close>

definition valid_lattice :: "int \<Rightarrow> lattice \<Rightarrow> bool" where
  "valid_lattice L lattice \<longleftrightarrow>
     shape0 lattice = L \<and>
     list_all (\<lambda>row. int (length row) = L \<and> list_all is_spin row) lattice"

text \<open>What a call that raises leaves behind: the exception's class.\<close>

datatype error = ValueError | ZeroDivisionError | IndexError | OverflowError | TypeError

text \<open>\<open>range(n)\<close>: empty when n is not positive.\<close>

definition py_range :: "int \<Rightarrow> int list" where
  "py_range n = map int [0..<nat n]"

definition in_range :: "int \<Rightarrow> int \<Rightarrow> bool" where
  "in_range L i \<longleftrightarrow> 0 \<le> i \<and> i < L"

section \<open>Local energy model\<close>

text \<open>
  \<^verbatim>\<open>
  L = lattice.shape[0]
  s = lattice[i, j]
  nb = (lattice[(i + 1) % L, j] + lattice[(i - 1) % L, j] +
        lattice[i, (j + 1) % L] + lattice[i, (j - 1) % L])
  return 2 * s * (J * nb + h)
  \<close>
  Python's \<open>%\<close> rounds towards minus infinity, as \<open>mod\<close> on \<open>int\<close> does.
\<close>

definition delta_energy_nb :: "lattice \<Rightarrow> int \<Rightarrow> int \<Rightarrow> real \<Rightarrow> real \<Rightarrow> real" where
  "delta_energy_nb lattice i j J h =
     (let L = shape0 lattice;
          s = cell lattice i j;
          nb = cell lattice ((i + 1) mod L) j + cell lattice ((i - 1) mod L) j +
               cell lattice i ((j + 1) mod L) + cell lattice i ((j - 1) mod L)
      in 2 * real_of_int s * (J * real_of_int nb + h))"

text \<open>
  \<^verbatim>\<open>
  dE_int = 2 * s * J * nb
  dM = -2 * s
  dV = 0.5 * k_bias * ((M + dM - M0)**2 - (M - M0)**2)
  return dE_int + dV, dM
  \<close>
\<close>

definition delta_E_and_dM ::
  "lattice \<Rightarrow> int \<Rightarrow> int \<Rightarrow> real \<Rightarrow> real \<Rightarrow> real \<Rightarrow> int \<Rightarrow> real \<times> int" where
  "delta_E_and_dM lattice i j J k_bias M0 M =
     (let L = shape0 lattice;
          s = cell lattice i j;
          nb = cell lattice ((i + 1) mod L) j + cell lattice ((i - 1) mod L) j +
               cell lattice i ((j + 1) mod L) + cell lattice i ((j - 1) mod L);
          dE_int = 2 * real_of_int s * J * real_of_int nb;
          dM = - 2 * s;
          dV = 0.5 * k_bias * ((real_of_int (M + dM) - M0)\<^sup>2 - (real_of_int M - M0)\<^sup>2)
      in (dE_int + dV, dM))"

subsection \<open>The neighbour sum as the specification words it\<close>

text \<open>
  On a torus of circumference L the site after the last one is the first, and the site
  before the first one is the last.
\<close>

definition torus_next :: "int \<Rightarrow> int \<Rightarrow> int" where
  "torus_next L i = (if i = L - 1 then 0 else i + 1)"

definition torus_prev :: "int \<Rightarrow> int \<Rightarrow> int" where
  "torus_prev L i = (if i = 0 then L - 1 else i - 1)"

definition neighbor_sum :: "lattice \<Rightarrow> int \<Rightarrow> int \<Rightarrow> int" where
  "neighbor_sum lattice i j =
     (let L = shape0 lattice
      in cell lattice (torus_next L i) j + cell lattice (torus_prev L i) j +
         cell lattice i (torus_next L j) + cell lattice i (torus_prev L j))"


subsection \<open>The same two functions, statement by statement, over the array as a store\<close>

text \<open>
  Python passes the array by reference, so a callee could write to it. Here each array
  access of the two functions is one operation on the store; the store is the lattice.
\<close>

definition read_shape0 :: "(lattice, int) state" where
  "read_shape0 = State (\<lambda>lattice. (shape0 lattice, lattice))"

definition read_cell :: "int \<Rightarrow> int \<Rightarrow> (lattice, int) state" where
  "read_cell i j = State (\<lambda>lattice. (cell lattice i j, lattice))"

definition write_cell :: "int \<Rightarrow> int \<Rightarrow> int \<Rightarrow> (lattice, unit) state" where
  "write_cell i j v = State (\<lambda>lattice. ((), set_cell lattice i j v))"

definition delta_energy_nb_st :: "int \<Rightarrow> int \<Rightarrow> real \<Rightarrow> real \<Rightarrow> (lattice, real) state" where
  "delta_energy_nb_st i j J h = do {
     L \<leftarrow> read_shape0;
     s \<leftarrow> read_cell i j;
     n1 \<leftarrow> read_cell ((i + 1) mod L) j;
     n2 \<leftarrow> read_cell ((i - 1) mod L) j;
     n3 \<leftarrow> read_cell i ((j + 1) mod L);
     n4 \<leftarrow> read_cell i ((j - 1) mod L);
     let nb = n1 + n2 + n3 + n4;
     State_Monad.return (2 * real_of_int s * (J * real_of_int nb + h))
   }"

definition delta_E_and_dM_st ::
  "int \<Rightarrow> int \<Rightarrow> real \<Rightarrow> real \<Rightarrow> real \<Rightarrow> int \<Rightarrow> (lattice, real \<times> int) state" where
  "delta_E_and_dM_st i j J k_bias M0 M = do {
     L \<leftarrow> read_shape0;
     s \<leftarrow> read_cell i j;
     n1 \<leftarrow> read_cell ((i + 1) mod L) j;
     n2 \<leftarrow> read_cell ((i - 1) mod L) j;
     n3 \<leftarrow> read_cell i ((j + 1) mod L);
     n4 \<leftarrow> read_cell i ((j - 1) mod L);
     let nb = n1 + n2 + n3 + n4;
     let dE_int = 2 * real_of_int s * J * real_of_int nb;
     let dM = - 2 * s;
     let dV = 0.5 * k_bias * ((real_of_int (M + dM) - M0)\<^sup>2 - (real_of_int M - M0)\<^sup>2);
     State_Monad.return (dE_int + dV, dM)
   }"

section \<open>The random source\<close>

text \<open>
  The program draws from NumPy's global generator. The generator is an explicit state
  here: a tape of variates, each call consuming the next one. \<open>random()\<close> and
  \<open>rand()\<close> return the variate; \<open>randint(low, high)\<close> scales it to an integer of
  [low, high). A tape is uniform when all its variates lie in [0, 1); how they are
  distributed is the generator's business and is not modelled.
\<close>

type_synonym rng = "real stream"

definition uniform_tape :: "rng \<Rightarrow> bool" where
  "uniform_tape g \<longleftrightarrow> (\<forall>u \<in> sset g. 0 \<le> u \<and> u < 1)"

definition random :: "rng \<Rightarrow> real \<times> rng" where
  "random g = (shd g, stl g)"

definition randint :: "int \<Rightarrow> int \<Rightarrow> rng \<Rightarrow> int \<times> rng" where
  "randint low high g = (low + \<lfloor>shd g * real_of_int (high - low)\<rfloor>, stl g)"

section \<open>Loops\<close>

text \<open>\<open>for _ in range(n): body\<close> over a state, and the same when the body can raise.\<close>

fun for_range :: "nat \<Rightarrow> ('s \<Rightarrow> 's) \<Rightarrow> 's \<Rightarrow> 's" where
  "for_range 0 body s = s"
| "for_range (Suc n) body s = for_range n body (body s)"

fun for_range_err :: "nat \<Rightarrow> ('s \<Rightarrow> error + 's) \<Rightarrow> 's \<Rightarrow> error + 's" where
  "for_range_err 0 body s = Inr s"
| "for_range_err (Suc n) body s =
     (case body s of Inl e \<Rightarrow> Inl e | Inr s' \<Rightarrow> for_range_err n body s')"

section \<open>Initialisation and the Metropolis engine\<close>

text \<open>
  \<^verbatim>\<open>
  lattice = np.empty((L, L), dtype=np.int8)
  for i in range(L):
      for j in range(L):
          lattice[i, j] = -1 if np.random.randint(0, 2) == 0 else 1
  \<close>
  The cells are drawn in row-major order. A negative L makes \<open>np.empty\<close> raise.
\<close>

fun init_row :: "nat \<Rightarrow> rng \<Rightarrow> int list \<times> rng" where
  "init_row 0 g = ([], g)"
| "init_row (Suc n) g =
     (let (b, g1) = randint 0 2 g;
          (row, g2) = init_row n g1
      in ((if b = 0 then - 1 else 1) # row, g2))"

fun init_rows :: "nat \<Rightarrow> nat \<Rightarrow> rng \<Rightarrow> lattice \<times> rng" where
  "init_rows 0 n g = ([], g)"
| "init_rows (Suc m) n g =
     (let (row, g1) = init_row n g;
          (rows, g2) = init_rows m n g1
      in (row # rows, g2))"

definition init_lattice_nb :: "int \<Rightarrow> rng \<Rightarrow> error + lattice \<times> rng" where
  "init_lattice_nb L g =
     (if L < 0 then Inl ValueError else Inr (init_rows (nat L) (nat L) g))"

text \<open>
  The body of the sweep's loop, one trial flip:
  \<^verbatim>\<open>
  i = np.random.randint(0, L)
  j = np.random.randint(0, L)
  dE = delta_energy_nb(lattice, i, j, J, h)
  if dE <= 0 or np.random.random() < np.exp(-beta * dE):
      lattice[i, j] = -lattice[i, j]
  \<close>
  \<open>or\<close> does not evaluate its right operand when the left one holds, so the variate is
  drawn only when dE is positive.
\<close>

definition metropolis_trial ::
  "real \<Rightarrow> real \<Rightarrow> real \<Rightarrow> lattice \<times> rng \<Rightarrow> lattice \<times> rng" where
  "metropolis_trial beta J h st =
     (case st of (lattice, g) \<Rightarrow>
        let L = shape0 lattice;
            (i, g1) = randint 0 L g;
            (j, g2) = randint 0 L g1;
            dE = delta_energy_nb lattice i j J h
        in if dE \<le> 0 then (set_cell lattice i j (- cell lattice i j), g2)
           else let (u, g3) = random g2
                in if u < exp (- beta * dE)
                   then (set_cell lattice i j (- cell lattice i j), g3)
                   else (lattice, g3))"

definition metropolis_step_nb ::
  "real \<Rightarrow> real \<Rightarrow> real \<Rightarrow> lattice \<times> rng \<Rightarrow> lattice \<times> rng" where
  "metropolis_step_nb beta J h st =
     (let L = shape0 (fst st)
      in for_range (nat (L * L)) (metropolis_trial beta J h) st)"

text \<open>What every state of the engine satisfies: an L by L lattice of spins and a uniform tape.\<close>

definition engine_state :: "int \<Rightarrow> lattice \<times> rng \<Rightarrow> bool" where
  "engine_state L st \<longleftrightarrow> valid_lattice L (fst st) \<and> uniform_tape (snd st)"

section \<open>Observable accumulators\<close>

text \<open>
  The functions are compiled by Numba with its default error model, where a division by
  zero raises. A negative count makes \<open>range\<close> empty.
\<close>

definition magnetization_step ::
  "real \<Rightarrow> real \<Rightarrow> real \<Rightarrow> lattice \<times> rng \<times> real \<Rightarrow> lattice \<times> rng \<times> real" where
  "magnetization_step beta J h st =
     (case st of (lattice, g, m_accum) \<Rightarrow>
        let (lattice', g') = metropolis_step_nb beta J h (lattice, g)
        in (lattice', g', m_accum + real_of_int (total_sum lattice')))"

definition measure_magnetization_nb ::
  "int \<Rightarrow> real \<Rightarrow> real \<Rightarrow> int \<Rightarrow> int \<Rightarrow> real \<Rightarrow> rng \<Rightarrow> error + real \<times> rng" where
  "measure_magnetization_nb L T h n_eq n_steps J g =
     (case init_lattice_nb L g of
        Inl e \<Rightarrow> Inl e
      | Inr (lattice, g1) \<Rightarrow>
          if T = 0 then Inl ZeroDivisionError
          else let beta = 1 / T;
                   (lattice2, g2) = for_range (nat n_eq) (metropolis_step_nb beta J h) (lattice, g1);
                   (lattice3, g3, m_accum) =
                     for_range (nat n_steps) (magnetization_step beta J h) (lattice2, g2, 0)
               in if n_steps * L * L = 0 then Inl ZeroDivisionError
                  else Inr (m_accum / real_of_int (n_steps * L * L), g3))"

text \<open>
  The two double loops of the full-lattice correlator at separation r:
  \<^verbatim>\<open>
  for i in range(L):
      for j in range(L):
          si = lattice[i, j]; sj = lattice[(i + r) % L, j]
          pair_sum += si * sj
          shift_sum += sj
  \<close>
\<close>

definition pair_sum :: "lattice \<Rightarrow> int \<Rightarrow> int \<Rightarrow> real" where
  "pair_sum lattice L r =
     (\<Sum>i\<leftarrow>py_range L. \<Sum>j\<leftarrow>py_range L.
        real_of_int (cell lattice i j * cell lattice ((i + r) mod L) j))"

definition shift_sum :: "lattice \<Rightarrow> int \<Rightarrow> int \<Rightarrow> real" where
  "shift_sum lattice L r =
     (\<Sum>i\<leftarrow>py_range L. \<Sum>j\<leftarrow>py_range L. real_of_int (cell lattice ((i + r) mod L) j))"

definition total_spin :: "lattice \<Rightarrow> int \<Rightarrow> int" where
  "total_spin lattice L = (\<Sum>i\<leftarrow>py_range L. \<Sum>j\<leftarrow>py_range L. cell lattice i j)"

text \<open>The body of \<open>for r in range(max_r + 1)\<close>.\<close>

definition spin_stats_accumulate ::
  "lattice \<Rightarrow> int \<Rightarrow> real list \<times> real list \<Rightarrow> int \<Rightarrow> real list \<times> real list" where
  "spin_stats_accumulate lattice L acc r =
     (case acc of (sum_pair, sum_shift) \<Rightarrow>
        let N = L * L
        in (sum_pair[nat r := sum_pair ! nat r + pair_sum lattice L r / real_of_int N],
            sum_shift[nat r := sum_shift ! nat r + shift_sum lattice L r / real_of_int N]))"

text \<open>The body of the measurement loop.\<close>

definition spin_stats_step ::
  "real \<Rightarrow> real \<Rightarrow> real \<Rightarrow> int \<Rightarrow> lattice \<times> rng \<times> real \<times> real list \<times> real list
     \<Rightarrow> error + lattice \<times> rng \<times> real \<times> real list \<times> real list" where
  "spin_stats_step beta J h L st =
     (case st of (lattice, g, sum_m, sum_pair, sum_shift) \<Rightarrow>
        let N = L * L;
            max_r = L div 2;
            (lattice', g') = metropolis_step_nb beta J h (lattice, g);
            total = total_spin lattice' L
        in if N = 0 then Inl ZeroDivisionError
           else let m_inst = real_of_int total / real_of_int N;
                    (sum_pair', sum_shift') =
                      foldl (spin_stats_accumulate lattice' L) (sum_pair, sum_shift)
                        (py_range (max_r + 1))
                in Inr (lattice', g', sum_m + m_inst, sum_pair', sum_shift'))"

definition measure_spin_stats_explicit_nb ::
  "int \<Rightarrow> real \<Rightarrow> real \<Rightarrow> int \<Rightarrow> int \<Rightarrow> real \<Rightarrow> rng \<Rightarrow> error + (real \<times> real list) \<times> rng" where
  "measure_spin_stats_explicit_nb L T h n_eq n_steps J g =
     (case init_lattice_nb L g of
        Inl e \<Rightarrow> Inl e
      | Inr (lattice, g1) \<Rightarrow>
          if T = 0 then Inl ZeroDivisionError
          else let beta = 1 / T;
                   max_r = L div 2;
                   (lattice2, g2) = for_range (nat n_eq) (metropolis_step_nb beta J h) (lattice, g1);
                   zeros = replicate (nat (max_r + 1)) 0
               in case for_range_err (nat n_steps) (spin_stats_step beta J h L)
                         (lattice2, g2, 0, zeros, zeros) of
                    Inl e \<Rightarrow> Inl e
                  | Inr (lattice3, g3, sum_m, sum_pair, sum_shift) \<Rightarrow>
                      if n_steps = 0 then Inl ZeroDivisionError
                      else let m_avg = sum_m / real_of_int n_steps;
                               corr = map (\<lambda>r. sum_pair ! nat r / real_of_int n_steps -
                                             m_avg * (sum_shift ! nat r / real_of_int n_steps))
                                        (py_range (max_r + 1))
                           in Inr ((m_avg, corr), g3))"

text \<open>
  The column correlator: \<open>c += lattice[i, col_idx] * lattice[(i + r) % L, col_idx]\<close> over
  the rows, then \<open>corr_sum[r] += c / L\<close>.
\<close>

definition column_pair_sum :: "lattice \<Rightarrow> int \<Rightarrow> int \<Rightarrow> int \<Rightarrow> real" where
  "column_pair_sum lattice L col_idx r =
     (\<Sum>i\<leftarrow>py_range L.
        real_of_int (cell lattice i col_idx * cell lattice ((i + r) mod L) col_idx))"

definition column_accumulate ::
  "lattice \<Rightarrow> int \<Rightarrow> int \<Rightarrow> real list \<Rightarrow> int \<Rightarrow> real list" where
  "column_accumulate lattice L col_idx corr_sum r =
     corr_sum[nat r := corr_sum ! nat r + column_pair_sum lattice L col_idx r / real_of_int L]"

definition column_step ::
  "real \<Rightarrow> real \<Rightarrow> int \<Rightarrow> int \<Rightarrow> lattice \<times> rng \<times> real \<times> real list
     \<Rightarrow> error + lattice \<times> rng \<times> real \<times> real list" where
  "column_step beta J L col_idx st =
     (case st of (lattice, g, sum_m, corr_sum) \<Rightarrow>
        let N = L * L;
            max_r = L div 2;
            (lattice', g') = metropolis_step_nb beta J 0 (lattice, g)
        in if N = 0 then Inl ZeroDivisionError
           else let m_inst = real_of_int (total_sum lattice') / real_of_int N
                in Inr (lattice', g', sum_m + m_inst,
                        foldl (column_accumulate lattice' L col_idx) corr_sum
                          (py_range (max_r + 1))))"

definition measure_column_correlation_nb ::
  "int \<Rightarrow> real \<Rightarrow> int \<Rightarrow> int \<Rightarrow> int \<Rightarrow> real \<Rightarrow> rng \<Rightarrow> error + (real \<times> real list) \<times> rng" where
  "measure_column_correlation_nb L T col_idx n_eq n_steps J g =
     (case init_lattice_nb L g of
        Inl e \<Rightarrow> Inl e
      | Inr (lattice, g1) \<Rightarrow>
          if T = 0 then Inl ZeroDivisionError
          else let beta = 1 / T;
                   max_r = L div 2;
                   (lattice2, g2) = for_range (nat n_eq) (metropolis_step_nb beta J 0) (lattice, g1)
               in case for_range_err (nat n_steps) (column_step beta J L col_idx)
                         (lattice2, g2, 0, replicate (nat (max_r + 1)) 0) of
                    Inl e \<Rightarrow> Inl e
                  | Inr (lattice3, g3, sum_m, corr_sum) \<Rightarrow>
                      if n_steps = 0 then Inl ZeroDivisionError
                      else let m_avg = sum_m / real_of_int n_steps;
                               corr = map (\<lambda>x. x / real_of_int n_steps - m_avg\<^sup>2) corr_sum
                           in Inr ((m_avg, corr), g3))"

text \<open>
  What the measurement loops of the two correlators keep true after c passes: the engine
  state, and at separation zero a pair accumulator equal to c; in the full-lattice
  correlator the shift accumulator at separation zero equals the magnetization
  accumulator.
\<close>

definition spin_stats_state ::
  "int \<Rightarrow> nat \<Rightarrow> lattice \<times> rng \<times> real \<times> real list \<times> real list \<Rightarrow> bool" where
  "spin_stats_state L c st \<longleftrightarrow>
     (case st of (lattice, g, sum_m, sum_pair, sum_shift) \<Rightarrow>
        engine_state L (lattice, g) \<and> sum_pair \<noteq> [] \<and> sum_shift \<noteq> [] \<and>
        sum_pair ! 0 = real c \<and> sum_shift ! 0 = sum_m)"

definition column_state :: "int \<Rightarrow> nat \<Rightarrow> lattice \<times> rng \<times> real \<times> real list \<Rightarrow> bool" where
  "column_state L c st \<longleftrightarrow>
     (case st of (lattice, g, sum_m, corr_sum) \<Rightarrow>
        engine_state L (lattice, g) \<and> corr_sum \<noteq> [] \<and> corr_sum ! 0 = real c)"

section \<open>Umbrella window sampler\<close>

text \<open>
  The body shared by the two loops of \<open>run_window_us\<close>, one biased trial flip:
  \<^verbatim>\<open>
  i, j = np.random.randint(0, L, 2)
  dE, dM = delta_E_and_dM(lattice, i, j, J, k_bias, M0, M)
  if dE <= 0 or np.random.rand() < np.exp(-beta * dE):
      lattice[i, j] *= -1
      M += dM
  \<close>
  \<open>randint\<close> raises when its range is empty.
\<close>

definition us_trial ::
  "real \<Rightarrow> real \<Rightarrow> real \<Rightarrow> real \<Rightarrow> int \<Rightarrow> lattice \<times> int \<times> rng \<Rightarrow> error + lattice \<times> int \<times> rng" where
  "us_trial beta J k_bias M0 L st =
     (case st of (lattice, M, g) \<Rightarrow>
        if L \<le> 0 then Inl ValueError
        else let (i, g1) = randint 0 L g;
                 (j, g2) = randint 0 L g1;
                 (dE, dM) = delta_E_and_dM lattice i j J k_bias M0 M
             in if dE \<le> 0 then Inr (set_cell lattice i j (cell lattice i j * - 1), M + dM, g2)
                else let (u, g3) = random g2
                     in if u < exp (- beta * dE)
                        then Inr (set_cell lattice i j (cell lattice i j * - 1), M + dM, g3)
                        else Inr (lattice, M, g3))"

text \<open>
  What the sampler keeps true of its state: an L by L lattice of spins, the tracked M
  equal to the sum of the lattice, a uniform tape.
\<close>

definition us_state :: "int \<Rightarrow> lattice \<times> int \<times> rng \<Rightarrow> bool" where
  "us_state L st \<longleftrightarrow>
     (case st of (lattice, M, g) \<Rightarrow>
        valid_lattice L lattice \<and> M = total_sum lattice \<and> uniform_tape g)"

text \<open>
  \<open>np.linspace(start, stop, num)\<close>: num evenly spaced points, the last one set to stop.
\<close>

definition linspace :: "real \<Rightarrow> real \<Rightarrow> nat \<Rightarrow> real list" where
  "linspace start stop num =
     (if num = 0 then []
      else if num = 1 then [start]
      else (map (\<lambda>k. start + real k * ((stop - start) / real (num - 1))) [0..<num])
             [num - 1 := stop])"

text \<open>\<open>int(x)\<close> of a float truncates towards zero.\<close>

definition py_int :: "real \<Rightarrow> int" where
  "py_int x = (if 0 \<le> x then \<lfloor>x\<rfloor> else \<lceil>x\<rceil>)"

text \<open>
  \<open>idx = int((M - Mgrid[0]) / (Mgrid[-1] - Mgrid[0]) * (bins - 1))\<close>. Indexing an empty
  grid raises. A zero denominator gives NaN or an infinity, which \<open>int\<close> refuses: NaN
  (from 0/0, or from an infinity times the zero \<open>bins - 1\<close>) with a ValueError, an
  infinity with an OverflowError. Here the quotient and the product are real numbers, as
  the rest of the sampler's arithmetic is; \<open>hist_index_f64\<close> below is the same
  computation with every operation rounded as the program's 64-bit floats round it, and
  may name the bin below this one.
\<close>

definition hist_index :: "int \<Rightarrow> real list \<Rightarrow> int \<Rightarrow> error + int" where
  "hist_index M Mgrid bins =
     (if Mgrid = [] then Inl IndexError
      else let num = real_of_int M - hd Mgrid;
               den = last Mgrid - hd Mgrid
           in if den = 0
              then (if num = 0 \<or> bins - 1 = 0 then Inl ValueError else Inl OverflowError)
              else Inr (py_int (num / den * real_of_int (bins - 1))))"

text \<open>
  \<open>hist[idx] += 1\<close>: an index below zero counts from the end, an index outside
  [-len, len) raises.
\<close>

definition hist_increment :: "real list \<Rightarrow> int \<Rightarrow> error + real list" where
  "hist_increment hist idx =
     (let n = int (length hist)
      in if 0 \<le> idx \<and> idx < n then Inr (hist[nat idx := hist ! nat idx + 1])
         else if - n \<le> idx \<and> idx < 0 then Inr (hist[nat (idx + n) := hist ! nat (idx + n) + 1])
         else Inl IndexError)"

subsection \<open>The index as the 64-bit floats compute it\<close>

text \<open>
  A 64-bit float has a significand of 53 bits. Rounding a real number x other than 0 to
  the nearest float: with e the exponent of x, where 2^e \<le> |x| < 2^(e+1), the floats
  around x are the multiples of 2^(e-52), and x goes to the nearest one, to the one with
  the even multiplier when it lies halfway. The exponent is unbounded here: overflow and
  subnormal numbers, far from every value the index computation meets, are left out.

  The exponent of x \<ge> 1 is found by halving, that of 0 < x < 1 by doubling.
\<close>

function expo_up :: "real \<Rightarrow> int" where
  "expo_up x = (if 2 \<le> x then expo_up (x / 2) + 1 else 0)"
  by pat_completeness auto
termination
proof (relation "measure (\<lambda>x. nat \<lfloor>x\<rfloor>)")
  show "wf (measure (\<lambda>x::real. nat \<lfloor>x\<rfloor>))"
    by simp
next
  fix x :: real
  assume x: "2 \<le> x"
  then have "x / 2 \<le> x - 1"
    by simp
  then have "\<lfloor>x / 2\<rfloor> \<le> \<lfloor>x - 1\<rfloor>"
    by (rule floor_mono)
  moreover from x have "2 \<le> \<lfloor>x\<rfloor>"
    by (simp add: le_floor_iff)
  ultimately show "(x / 2, x) \<in> measure (\<lambda>x. nat \<lfloor>x\<rfloor>)"
    by simp
qed

function expo_down :: "real \<Rightarrow> int" where
  "expo_down x = (if 0 < x \<and> x < 1 then expo_down (2 * x) - 1 else 0)"
  by pat_completeness auto
termination
proof (relation "measure (\<lambda>x. nat \<lfloor>1 / x\<rfloor>)")
  show "wf (measure (\<lambda>x::real. nat \<lfloor>1 / x\<rfloor>))"
    by simp
next
  fix x :: real
  assume x: "0 < x \<and> x < 1"
  then have y: "1 < 1 / x"
    by simp
  have "\<lfloor>1 / x / 2\<rfloor> < \<lfloor>1 / x\<rfloor>"
  proof (cases "2 \<le> 1 / x")
    case True
    then have "1 / x / 2 \<le> 1 / x - 1"
      by simp
    then have "\<lfloor>1 / x / 2\<rfloor> \<le> \<lfloor>1 / x - 1\<rfloor>"
      by (rule floor_mono)
    then show ?thesis
      by simp
  next
    case False
    with y have "1 / x / 2 < 1"
      by simp
    then have "\<lfloor>1 / x / 2\<rfloor> < 1"
      by (simp add: floor_less_iff)
    moreover from y have "1 \<le> \<lfloor>1 / x\<rfloor>"
      by (simp add: le_floor_iff)
    ultimately show ?thesis
      by linarith
  qed
  moreover from y have "1 \<le> \<lfloor>1 / x\<rfloor>"
    by (simp add: le_floor_iff)
  moreover have eq: "1 / (2 * x) = 1 / x / 2"
    by simp
  ultimately have "nat \<lfloor>1 / (2 * x)\<rfloor> < nat \<lfloor>1 / x\<rfloor>"
    unfolding eq by linarith
  then show "(2 * x, x) \<in> measure (\<lambda>x. nat \<lfloor>1 / x\<rfloor>)"
    by (simp only: in_measure)
qed

declare expo_up.simps [simp del] expo_down.simps [simp del]

definition exponent :: "real \<Rightarrow> int" where
  "exponent x = (if 1 \<le> x then expo_up x else expo_down x)"

text \<open>Rounding to the nearest integer, a tie going to the even one.\<close>

definition round_even :: "real \<Rightarrow> int" where
  "round_even y =
     (let n = \<lfloor>y\<rfloor>;
          r = y - real_of_int n
      in if r < 1 / 2 then n
         else if 1 / 2 < r then n + 1
         else if even n then n else n + 1)"

definition fl64 :: "real \<Rightarrow> real" where
  "fl64 x =
     (if x = 0 then 0
      else let u = 2 powi (exponent \<bar>x\<bar> - 52)
           in real_of_int (round_even (x / u)) * u)"

text \<open>
  \<open>idx = int((M - Mgrid[0]) / (Mgrid[-1] - Mgrid[0]) * (bins - 1))\<close> once more. M is a
  64-bit integer and the grid holds floats: M is converted and the difference rounded;
  the quotient is rounded; \<open>bins - 1\<close> is converted and the product rounded; \<open>int\<close>
  truncates what is left.
\<close>

definition hist_index_f64 :: "int \<Rightarrow> real list \<Rightarrow> int \<Rightarrow> error + int" where
  "hist_index_f64 M Mgrid bins =
     (if Mgrid = [] then Inl IndexError
      else let num = fl64 (fl64 (real_of_int M) - hd Mgrid);
               den = fl64 (last Mgrid - hd Mgrid)
           in if den = 0
              then (if num = 0 \<or> bins - 1 = 0 then Inl ValueError else Inl OverflowError)
              else Inr (py_int (fl64 (fl64 (num / den) * fl64 (real_of_int (bins - 1))))))"

text \<open>The body of the measurement loop: a trial, then the histogram update.\<close>

definition us_measure_trial ::
  "real \<Rightarrow> real \<Rightarrow> real \<Rightarrow> real \<Rightarrow> int \<Rightarrow> int \<Rightarrow> real list
     \<Rightarrow> (lattice \<times> int \<times> rng) \<times> real list \<Rightarrow> error + (lattice \<times> int \<times> rng) \<times> real list" where
  "us_measure_trial beta J k_bias M0 L bins Mgrid st =
     (case st of (s, hist) \<Rightarrow>
        case us_trial beta J k_bias M0 L s of
          Inl e \<Rightarrow> Inl e
        | Inr (lattice', M', g') \<Rightarrow>
            (case hist_index M' Mgrid bins of
               Inl e \<Rightarrow> Inl e
             | Inr idx \<Rightarrow>
                 (case hist_increment hist idx of
                    Inl e \<Rightarrow> Inl e
                  | Inr hist' \<Rightarrow> Inr ((lattice', M', g'), hist'))))"

text \<open>
  \<^verbatim>\<open>
  beta = 1.0 / T
  lattice = init_lattice_nb(L)
  M = lattice.sum()
  hist = np.zeros(bins)
  Mgrid = np.linspace(-L * L, L * L, bins)
  for _ in range(n_eq): ...
  for _ in range(n_steps): ...
  return hist, Mgrid
  \<close>
  T is a Python float, whose division by zero raises; \<open>np.zeros\<close> raises on a negative
  size.
\<close>

definition run_window_us ::
  "int \<Rightarrow> real \<Rightarrow> real \<Rightarrow> real \<Rightarrow> real \<Rightarrow> int \<Rightarrow> int \<Rightarrow> int \<Rightarrow> rng
     \<Rightarrow> error + (real list \<times> real list) \<times> rng" where
  "run_window_us L T J k_bias M0 n_eq n_steps bins g =
     (if T = 0 then Inl ZeroDivisionError
      else let beta = 1 / T
           in case init_lattice_nb L g of
                Inl e \<Rightarrow> Inl e
              | Inr (lattice, g1) \<Rightarrow>
                  let M = total_sum lattice
                  in if bins < 0 then Inl ValueError
                     else let hist = replicate (nat bins) 0;
                              Mgrid = linspace (real_of_int (- L * L)) (real_of_int (L * L)) (nat bins)
                          in case for_range_err (nat n_eq) (us_trial beta J k_bias M0 L)
                                    (lattice, M, g1) of
                               Inl e \<Rightarrow> Inl e
                             | Inr s \<Rightarrow>
                                 (case for_range_err (nat n_steps)
                                         (us_measure_trial beta J k_bias M0 L bins Mgrid) (s, hist) of
                                    Inl e \<Rightarrow> Inl e
                                  | Inr ((lattice', M', g'), hist') \<Rightarrow> Inr ((hist', Mgrid), g')))"

section \<open>WHAM solver\<close>

text \<open>
  The solver's arithmetic runs on 64-bit floats and goes on, without raising, through
  divisions by zero and logarithms of zero: it is the special values, NaN above all, that
  decide whether its iteration ever meets the tolerance. A float is therefore a finite
  real number, an infinity or NaN here, with the rules of the special values as the
  floating-point standard has them. Finite results are exact: rounding, overflow to an
  infinity and the sign of zero are not modelled.
\<close>

datatype f64 = Fin real | PosInf | NegInf | NaN

fun f_neg :: "f64 \<Rightarrow> f64" where
  "f_neg (Fin a) = Fin (- a)"
| "f_neg PosInf = NegInf"
| "f_neg NegInf = PosInf"
| "f_neg NaN = NaN"

fun f_add :: "f64 \<Rightarrow> f64 \<Rightarrow> f64" where
  "f_add (Fin a) (Fin b) = Fin (a + b)"
| "f_add NaN y = NaN"
| "f_add x NaN = NaN"
| "f_add PosInf NegInf = NaN"
| "f_add NegInf PosInf = NaN"
| "f_add PosInf y = PosInf"
| "f_add x PosInf = PosInf"
| "f_add NegInf y = NegInf"
| "f_add x NegInf = NegInf"

definition f_sub :: "f64 \<Rightarrow> f64 \<Rightarrow> f64" where
  "f_sub x y = f_add x (f_neg y)"

fun f_mul :: "f64 \<Rightarrow> f64 \<Rightarrow> f64" where
  "f_mul (Fin a) (Fin b) = Fin (a * b)"
| "f_mul NaN y = NaN"
| "f_mul x NaN = NaN"
| "f_mul (Fin a) PosInf = (if a = 0 then NaN else if 0 < a then PosInf else NegInf)"
| "f_mul (Fin a) NegInf = (if a = 0 then NaN else if 0 < a then NegInf else PosInf)"
| "f_mul PosInf (Fin b) = (if b = 0 then NaN else if 0 < b then PosInf else NegInf)"
| "f_mul NegInf (Fin b) = (if b = 0 then NaN else if 0 < b then NegInf else PosInf)"
| "f_mul PosInf PosInf = PosInf"
| "f_mul PosInf NegInf = NegInf"
| "f_mul NegInf PosInf = NegInf"
| "f_mul NegInf NegInf = PosInf"

fun f_div :: "f64 \<Rightarrow> f64 \<Rightarrow> f64" where
  "f_div (Fin a) (Fin b) =
     (if b \<noteq> 0 then Fin (a / b)
      else if a = 0 then NaN else if 0 < a then PosInf else NegInf)"
| "f_div NaN y = NaN"
| "f_div x NaN = NaN"
| "f_div (Fin a) PosInf = Fin 0"
| "f_div (Fin a) NegInf = Fin 0"
| "f_div PosInf (Fin b) = (if 0 \<le> b then PosInf else NegInf)"
| "f_div NegInf (Fin b) = (if 0 \<le> b then NegInf else PosInf)"
| "f_div PosInf y = NaN"
| "f_div NegInf y = NaN"

fun f_exp :: "f64 \<Rightarrow> f64" where
  "f_exp (Fin a) = Fin (exp a)"
| "f_exp PosInf = PosInf"
| "f_exp NegInf = Fin 0"
| "f_exp NaN = NaN"

fun f_log :: "f64 \<Rightarrow> f64" where
  "f_log (Fin a) = (if 0 < a then Fin (ln a) else if a = 0 then NegInf else NaN)"
| "f_log PosInf = PosInf"
| "f_log NegInf = NaN"
| "f_log NaN = NaN"

fun f_abs :: "f64 \<Rightarrow> f64" where
  "f_abs (Fin a) = Fin \<bar>a\<bar>"
| "f_abs PosInf = PosInf"
| "f_abs NegInf = PosInf"
| "f_abs NaN = NaN"

text \<open>A comparison with NaN on either side is false.\<close>

fun f_less :: "f64 \<Rightarrow> f64 \<Rightarrow> bool" where
  "f_less (Fin a) (Fin b) \<longleftrightarrow> a < b"
| "f_less NaN y \<longleftrightarrow> False"
| "f_less x NaN \<longleftrightarrow> False"
| "f_less x NegInf \<longleftrightarrow> False"
| "f_less PosInf y \<longleftrightarrow> False"
| "f_less NegInf y \<longleftrightarrow> True"
| "f_less x PosInf \<longleftrightarrow> True"

text \<open>\<open>np.max\<close> returns NaN when there is one; \<open>np.sum\<close> adds up from zero.\<close>

fun f_max :: "f64 \<Rightarrow> f64 \<Rightarrow> f64" where
  "f_max NaN y = NaN"
| "f_max x NaN = NaN"
| "f_max x y = (if f_less x y then y else x)"

definition np_max :: "f64 list \<Rightarrow> f64" where
  "np_max xs = foldl f_max (hd xs) (tl xs)"

definition np_sum :: "f64 list \<Rightarrow> f64" where
  "np_sum xs = foldl f_add (Fin 0) xs"

text \<open>
  \<open>trapezoid(y, x)\<close>: the sum over the intervals of the grid of
  \<open>(x[i+1] - x[i]) * (y[i+1] + y[i]) / 2\<close>. The grid x is finite.
\<close>

definition trapezoid :: "f64 list \<Rightarrow> real list \<Rightarrow> f64" where
  "trapezoid y x =
     np_sum (map (\<lambda>i. f_div (f_mul (Fin (x ! Suc i - x ! i)) (f_add (y ! Suc i) (y ! i))) (Fin 2))
               [0..<length x - 1])"

definition wham_eps :: real where
  "wham_eps = 1 / 10 ^ 30"

text \<open>\<open>V = np.array([0.5 * k_bias * (Mgrid - M0)**2 for M0 in M0_list])\<close>\<close>

definition bias_potential :: "real \<Rightarrow> real list \<Rightarrow> real list \<Rightarrow> real list list" where
  "bias_potential k_bias Mgrid M0_list =
     map (\<lambda>M0. map (\<lambda>m. 0.5 * k_bias * (m - M0)\<^sup>2) Mgrid) M0_list"

text \<open>
  One pass of the loop body up to the convergence test: from the current f to the
  distribution P and to f_new. H holds K histograms of B bins, the grid B points, V the
  K bias potentials on the grid; the histograms, the grid and V are finite.
  \<^verbatim>\<open>
  denom = np.sum(n_k[:, None] * np.exp(beta * (f[:, None] - V)), axis=0)
  totalH = H.sum(axis=0)
  P = np.zeros_like(totalH)
  mask = denom > eps
  P[mask] = totalH[mask] / denom[mask]
  P /= trapezoid(P, Mgrid)
  integ = trapezoid(P[None, :] * np.exp(-beta * V), Mgrid, axis=1)
  f_new = -np.log(integ + eps) / beta
  \<close>
\<close>

definition wham_iteration ::
  "real list list \<Rightarrow> real list \<Rightarrow> real list list \<Rightarrow> real \<Rightarrow> f64 list \<Rightarrow> f64 list \<times> f64 list" where
  "wham_iteration H Mgrid V beta f =
     (let K = length H;
          B = length Mgrid;
          n_k = map sum_list H;
          denom = map (\<lambda>m. np_sum (map (\<lambda>k. f_mul (Fin (n_k ! k))
                                 (f_exp (f_mul (Fin beta) (f_sub (f ! k) (Fin (V ! k ! m))))))
                               [0..<K]))
                    [0..<B];
          totalH = map (\<lambda>m. \<Sum>k\<leftarrow>[0..<K]. H ! k ! m) [0..<B];
          P0 = map (\<lambda>m. if f_less (Fin wham_eps) (denom ! m)
                          then f_div (Fin (totalH ! m)) (denom ! m) else Fin 0) [0..<B];
          Z = trapezoid P0 Mgrid;
          P = map (\<lambda>p. f_div p Z) P0;
          integ = map (\<lambda>k. trapezoid
                          (map (\<lambda>m. f_mul (P ! m) (Fin (exp (- beta * V ! k ! m)))) [0..<B]) Mgrid)
                    [0..<K];
          f_new = map (\<lambda>x. f_div (f_neg (f_log (f_add x (Fin wham_eps)))) (Fin beta)) integ
      in (P, f_new))"

text \<open>\<open>np.max(np.abs(f_new - f)) < 1e-6\<close>\<close>

definition converged :: "f64 list \<Rightarrow> f64 list \<Rightarrow> bool" where
  "converged f_new f \<longleftrightarrow>
     f_less (np_max (map2 (\<lambda>a b. f_abs (f_sub a b)) f_new f)) (Fin (1 / 10 ^ 6))"

text \<open>
  \<open>for _ in range(n + 1)\<close> with the \<open>break\<close>: the loop hands on P and f of its last
  pass. The counter is the number of passes still to come after this one.
\<close>

fun wham_loop ::
  "nat \<Rightarrow> real list list \<Rightarrow> real list \<Rightarrow> real list list \<Rightarrow> real \<Rightarrow> f64 list
     \<Rightarrow> f64 list \<times> f64 list" where
  "wham_loop 0 H Mgrid V beta f = wham_iteration H Mgrid V beta f"
| "wham_loop (Suc n) H Mgrid V beta f =
     (let (P, f_new) = wham_iteration H Mgrid V beta f
      in if converged f_new f then (P, f_new) else wham_loop n H Mgrid V beta f_new)"

text \<open>
  For stating what the loop does: the number of passes it makes; the estimates f with
  which pass k starts when no earlier pass has stopped the loop; whether pass k meets the
  convergence test.
\<close>

fun wham_passes ::
  "nat \<Rightarrow> real list list \<Rightarrow> real list \<Rightarrow> real list list \<Rightarrow> real \<Rightarrow> f64 list \<Rightarrow> nat" where
  "wham_passes 0 H Mgrid V beta f = 1"
| "wham_passes (Suc n) H Mgrid V beta f =
     (let (P, f_new) = wham_iteration H Mgrid V beta f
      in if converged f_new f then 1 else Suc (wham_passes n H Mgrid V beta f_new))"

definition wham_f ::
  "real list list \<Rightarrow> real list \<Rightarrow> real list list \<Rightarrow> real \<Rightarrow> f64 list \<Rightarrow> nat \<Rightarrow> f64 list" where
  "wham_f H Mgrid V beta f k = ((\<lambda>f. snd (wham_iteration H Mgrid V beta f)) ^^ k) f"

definition converged_at ::
  "real list list \<Rightarrow> real list \<Rightarrow> real list list \<Rightarrow> real \<Rightarrow> f64 list \<Rightarrow> nat \<Rightarrow> bool" where
  "converged_at H Mgrid V beta f k \<longleftrightarrow>
     converged (snd (wham_iteration H Mgrid V beta (wham_f H Mgrid V beta f k)))
       (wham_f H Mgrid V beta f k)"

text \<open>What a Python function can hand back: here arrays, floats and booleans.\<close>

datatype pyval = PyArray "f64 list" | PyFloat real | PyBool bool

fun is_PyBool :: "pyval \<Rightarrow> bool" where
  "is_PyBool (PyBool b) = True"
| "is_PyBool v = False"

text \<open>
  A histogram comes in as a one-dimensional array of integers or of floats;
  \<open>run_window_us\<close> makes arrays of floats.
\<close>

datatype ndarray = IntArray "int list" | FloatArray "real list"

fun values_of :: "ndarray \<Rightarrow> real list" where
  "values_of (IntArray xs) = map real_of_int xs"
| "values_of (FloatArray xs) = xs"

fun is_FloatArray :: "ndarray \<Rightarrow> bool" where
  "is_FloatArray (FloatArray xs) = True"
| "is_FloatArray (IntArray xs) = False"

text \<open>
  \<open>H = np.vstack(hist_list)\<close> raises a ValueError when the list is empty and when
  its arrays differ in length. The stacked array is one of floats as soon as one of the
  histograms is, and one of integers otherwise.
\<close>

definition stackable :: "ndarray list \<Rightarrow> bool" where
  "stackable hist_list \<longleftrightarrow>
     hist_list \<noteq> [] \<and>
     list_all (\<lambda>h. length (values_of h) = length (values_of (hd hist_list))) hist_list"

text \<open>
  \<open>wham_us\<close> stacks the histograms, runs the loop over \<open>range(5000)\<close> from f = 0 and
  returns the tuple \<open>(P, F)\<close> with \<open>F = -np.log(P + eps) / beta\<close>. On histograms of
  integers \<open>P = np.zeros_like(totalH)\<close> is an array of integers, and the in-place
  division \<open>P /= trapezoid(P, Mgrid)\<close> of the first pass raises a TypeError. Past the
  stacking, the definition speaks for inputs of matching shapes: as many targets as
  histograms, and a grid of as many points as a histogram has bins; what NumPy's
  broadcasting makes of other shapes is not modelled.
\<close>

definition wham_us ::
  "ndarray list \<Rightarrow> real list \<Rightarrow> real \<Rightarrow> real list \<Rightarrow> real \<Rightarrow> error + pyval list" where
  "wham_us hist_list Mgrid k_bias M0_list beta =
     (if \<not> stackable hist_list then Inl ValueError
      else if \<not> list_ex is_FloatArray hist_list then Inl TypeError
      else let H = map values_of hist_list;
               V = bias_potential k_bias Mgrid M0_list;
               f = replicate (length H) (Fin 0);
               (P, f') = wham_loop 4999 H Mgrid V beta f;
               F = map (\<lambda>p. f_div (f_neg (f_log (f_add p (Fin wham_eps)))) (Fin beta)) P
           in Inr [PyArray P, PyArray F])"
section \<open>Properties of the lattice and of the random source\<close>

lemma mod_torus_next: "in_range L i \<Longrightarrow> (i + 1) mod L = torus_next L i"
  by (auto simp: in_range_def torus_next_def)

lemma mod_torus_prev: "in_range L i \<Longrightarrow> (i - 1) mod L = torus_prev L i"
proof (cases "i = 0")
  case True
  assume "in_range L i"
  with True have "0 < L" by (simp add: in_range_def)
  then have "(- 1) mod L = L - 1"
    by (simp add: zmod_minus1)
  with True show ?thesis by (simp add: torus_prev_def)
next
  case False
  assume "in_range L i"
  with False show ?thesis by (simp add: in_range_def torus_prev_def)
qed

lemma valid_lattice_shape0: "valid_lattice L lattice \<Longrightarrow> shape0 lattice = L"
  by (simp add: valid_lattice_def)

lemma valid_lattice_row:
  assumes "valid_lattice L lattice" and "in_range L i"
  shows "int (length (lattice ! nat i)) = L \<and> list_all is_spin (lattice ! nat i)"
proof -
  from assms have "nat i < length lattice"
    by (auto simp: valid_lattice_def shape0_def in_range_def)
  with assms(1) show ?thesis
    by (simp add: valid_lattice_def list_all_length)
qed

lemma cell_is_spin:
  assumes "valid_lattice L lattice" and "in_range L i" and "in_range L j"
  shows "is_spin (cell lattice i j)"
proof -
  from valid_lattice_row [OF assms(1,2)] assms(3)
  have "nat j < length (lattice ! nat i)" and "list_all is_spin (lattice ! nat i)"
    by (auto simp: in_range_def)
  then show ?thesis
    by (simp add: cell_def list_all_length)
qed

lemma valid_set_cell:
  assumes "valid_lattice L lattice" and "in_range L i" and "is_spin v"
  shows "valid_lattice L (set_cell lattice i j v)"
proof -
  from valid_lattice_row [OF assms(1,2)] assms(3)
  have row: "int (length ((lattice ! nat i)[nat j := v])) = L \<and>
             list_all is_spin ((lattice ! nat i)[nat j := v])"
    by (auto simp: list_all_iff dest!: subsetD [OF set_update_subset_insert])
  from assms(1) have "\<forall>k < length lattice.
      int (length (lattice ! k)) = L \<and> list_all is_spin (lattice ! k)"
    by (simp add: valid_lattice_def list_all_length)
  moreover from assms(1,2) have "nat i < length lattice"
    by (auto simp: valid_lattice_def shape0_def in_range_def)
  ultimately have "\<forall>k < length lattice.
      int (length (lattice[nat i := (lattice ! nat i)[nat j := v]] ! k)) = L \<and>
      list_all is_spin (lattice[nat i := (lattice ! nat i)[nat j := v]] ! k)"
    using row by (simp add: nth_list_update)
  with assms(1) show ?thesis
    by (simp add: valid_lattice_def set_cell_def shape0_def list_all_length)
qed

lemma cell_set_cell:
  assumes "valid_lattice L lattice" and "in_range L i" and "in_range L j"
    and "in_range L i'" and "in_range L j'"
  shows "cell (set_cell lattice i j v) i' j' =
           (if i' = i \<and> j' = j then v else cell lattice i' j')"
proof -
  from assms(1,2,4) have len: "nat i < length lattice" "nat i' < length lattice"
    by (auto simp: valid_lattice_def shape0_def in_range_def)
  from valid_lattice_row [OF assms(1,2)] assms(3)
  have j: "nat j < length (lattice ! nat i)"
    by (auto simp: in_range_def)
  from assms(2-5) have eq: "nat i' = nat i \<longleftrightarrow> i' = i" "nat j' = nat j \<longleftrightarrow> j' = j"
    by (auto simp: in_range_def)
  from len j eq show ?thesis
    by (auto simp: cell_def set_cell_def nth_list_update)
qed

lemma sum_list_update_int:
  fixes xs :: "'a::ab_group_add list"
  shows "k < length xs \<Longrightarrow> sum_list (xs[k := x]) = sum_list xs + x - xs ! k"
proof (induction xs arbitrary: k)
  case Nil
  then show ?case by simp
next
  case (Cons y ys)
  then show ?case by (cases k) simp_all
qed

lemma total_sum_set_cell:
  assumes "valid_lattice L lattice" and "in_range L i" and "in_range L j"
  shows "total_sum (set_cell lattice i j v) = total_sum lattice - cell lattice i j + v"
proof -
  from assms(1,2) have i: "nat i < length lattice"
    by (auto simp: valid_lattice_def shape0_def in_range_def)
  from valid_lattice_row [OF assms(1,2)] assms(3)
  have j: "nat j < length (lattice ! nat i)"
    by (auto simp: in_range_def)
  have "map sum_list (lattice[nat i := (lattice ! nat i)[nat j := v]]) =
        (map sum_list lattice)[nat i := sum_list ((lattice ! nat i)[nat j := v])]"
    by (simp add: map_update)
  moreover from i have "sum_list ((map sum_list lattice)[nat i := x]) =
      sum_list (map sum_list lattice) + x - sum_list (lattice ! nat i)" for x
    by (simp add: sum_list_update_int)
  moreover from j have "sum_list ((lattice ! nat i)[nat j := v]) =
      sum_list (lattice ! nat i) + v - lattice ! nat i ! nat j"
    by (simp add: sum_list_update_int)
  ultimately show ?thesis
    by (simp add: total_sum_def set_cell_def cell_def)
qed

lemma sum_list_spins_bound: "list_all is_spin row \<Longrightarrow> \<bar>sum_list row\<bar> \<le> int (length row)"
  by (induction row) (auto simp: is_spin_def)

lemma sum_list_rows_bound:
  "list_all (\<lambda>row. int (length row) = L \<and> list_all is_spin row) rows \<Longrightarrow>
     \<bar>sum_list (map sum_list rows)\<bar> \<le> int (length rows) * L"
proof (induction rows)
  case Nil
  show ?case by simp
next
  case (Cons row rows)
  then have "\<bar>sum_list row\<bar> \<le> L"
    using sum_list_spins_bound [of row] by simp
  moreover from Cons have "\<bar>sum_list (map sum_list rows)\<bar> \<le> int (length rows) * L"
    by simp
  ultimately show ?case
    by (simp add: algebra_simps)
qed

lemma total_sum_bound:
  assumes "valid_lattice L lattice"
  shows "\<bar>total_sum lattice\<bar> \<le> L * L"
  using assms sum_list_rows_bound [of L lattice]
  by (simp add: valid_lattice_def total_sum_def shape0_def)

lemma uniform_tape_stl: "uniform_tape g \<Longrightarrow> uniform_tape (stl g)"
  by (auto simp: uniform_tape_def dest: stl_sset)

lemma uniform_tape_shd: "uniform_tape g \<Longrightarrow> 0 \<le> shd g \<and> shd g < 1"
  by (auto simp: uniform_tape_def intro: shd_sset)

lemma snd_randint: "snd (randint low high g) = stl g"
  by (simp add: randint_def)

lemma randint_in_range:
  assumes "uniform_tape g" and "0 < L"
  shows "in_range L (fst (randint 0 L g))"
proof -
  from uniform_tape_shd [OF assms(1)] have u: "0 \<le> shd g" "shd g < 1"
    by simp_all
  from u(1) assms(2) have "0 \<le> shd g * real_of_int L"
    by simp
  then have lo: "0 \<le> \<lfloor>shd g * real_of_int L\<rfloor>"
    by simp
  from u(2) assms(2) have "shd g * real_of_int L < real_of_int L"
    by simp
  then have "\<lfloor>shd g * real_of_int L\<rfloor> < L"
    by (simp add: floor_less_iff)
  with lo show ?thesis
    by (simp add: randint_def in_range_def)
qed

text \<open>The tape of zeros, for running the program on concrete inputs.\<close>

lemma uniform_tape_zeros: "uniform_tape (sconst 0)"
  by (simp add: uniform_tape_def)

lemma randint_zeros: "randint low high (sconst 0) = (low, sconst 0)"
  by (simp add: randint_def)

lemma random_zeros: "random (sconst 0) = (0, sconst 0)"
  by (simp add: random_def)

lemma init_lattice_nb_zeros_1: "init_lattice_nb 1 (sconst 0) = Inr ([[- 1]], sconst 0)"
  by (simp add: init_lattice_nb_def randint_zeros)

lemma init_lattice_nb_zeros_2:
  "init_lattice_nb 2 (sconst 0) = Inr ([[- 1, - 1], [- 1, - 1]], sconst 0)"
  by (simp add: init_lattice_nb_def randint_zeros eval_nat_numeral)

lemma for_range_funpow: "for_range n body s = (body ^^ n) s"
  by (induction n arbitrary: s) (simp_all add: funpow_swap1)

lemma for_range_invariant:
  assumes "P s" and "\<And>t. P t \<Longrightarrow> P (body t)"
  shows "P (for_range n body s)"
  using assms(1)
proof (induction n arbitrary: s)
  case 0
  then show ?case by simp
next
  case (Suc n)
  from Suc.prems have "P (body s)" by (rule assms(2))
  then show ?case by (simp add: Suc.IH)
qed

lemma for_range_err_counting:
  assumes "P c s" and "\<And>c t. P c t \<Longrightarrow> \<exists>t'. body t = Inr t' \<and> P (Suc c) t'"
  shows "\<exists>s'. for_range_err n body s = Inr s' \<and> P (c + n) s'"
  using assms(1)
proof (induction n arbitrary: c s)
  case 0
  then show ?case by simp
next
  case (Suc n)
  from assms(2) [OF Suc.prems] obtain t' where t': "body s = Inr t'" "P (Suc c) t'"
    by blast
  from Suc.IH [OF t'(2)] t'(1) show ?case by simp
qed

lemma for_range_err_invariant:
  assumes "P s" and "\<And>t. P t \<Longrightarrow> \<exists>t'. body t = Inr t' \<and> P t'"
  shows "\<exists>s'. for_range_err n body s = Inr s' \<and> P s'"
  using for_range_err_counting [of "\<lambda>c. P" 0 s body n] assms by simp

lemma init_row_spins:
  "length (fst (init_row n g)) = n \<and> list_all is_spin (fst (init_row n g)) \<and>
   (uniform_tape g \<longrightarrow> uniform_tape (snd (init_row n g)))"
proof (induction n arbitrary: g)
  case 0
  show ?case by simp
next
  case (Suc n)
  from Suc [of "stl g"] show ?case
    by (simp add: randint_def split_beta is_spin_def uniform_tape_stl)
qed

lemma init_rows_spins:
  "length (fst (init_rows m n g)) = m \<and>
   list_all (\<lambda>row. length row = n \<and> list_all is_spin row) (fst (init_rows m n g)) \<and>
   (uniform_tape g \<longrightarrow> uniform_tape (snd (init_rows m n g)))"
proof (induction m arbitrary: g)
  case 0
  show ?case by simp
next
  case (Suc m)
  from Suc [of "snd (init_row n g)"] init_row_spins [of n g] show ?case
    by (simp add: split_beta)
qed

lemma init_lattice_nb_valid:
  assumes "0 \<le> L"
  shows "\<exists>lattice g'. init_lattice_nb L g = Inr (lattice, g') \<and> valid_lattice L lattice \<and>
           (uniform_tape g \<longrightarrow> uniform_tape g')"
proof -
  obtain lattice g' where eq: "init_rows (nat L) (nat L) g = (lattice, g')"
    by (cases "init_rows (nat L) (nat L) g")
  from init_rows_spins [of "nat L" "nat L" g] eq
  have len: "length lattice = nat L"
    and rows: "list_all (\<lambda>row. length row = nat L \<and> list_all is_spin row) lattice"
    and tape: "uniform_tape g \<longrightarrow> uniform_tape g'"
    by simp_all
  from rows assms have "list_all (\<lambda>row. int (length row) = L \<and> list_all is_spin row) lattice"
    by (auto simp: list_all_iff)
  with len assms have "valid_lattice L lattice"
    by (simp add: valid_lattice_def shape0_def)
  with eq tape assms show ?thesis
    by (simp add: init_lattice_nb_def)
qed

section \<open>The Metropolis engine\<close>

lemma metropolis_trial_result:
  "metropolis_trial beta J h (lattice, g) =
     (let L = shape0 lattice;
          i = fst (randint 0 L g);
          j = fst (randint 0 L (stl g));
          u = shd (stl (stl g));
          dE = delta_energy_nb lattice i j J h
      in (if dE \<le> 0 \<or> u < exp (- beta * dE) then set_cell lattice i j (- cell lattice i j)
          else lattice,
          if dE \<le> 0 then stl (stl g) else stl (stl (stl g))))"
  by (simp add: metropolis_trial_def Let_def randint_def random_def)

lemma metropolis_trial_invariant:
  assumes "valid_lattice L lattice" and "uniform_tape g" and "0 < L"
  shows "valid_lattice L (fst (metropolis_trial beta J h (lattice, g))) \<and>
         uniform_tape (snd (metropolis_trial beta J h (lattice, g)))"
proof -
  note L = valid_lattice_shape0 [OF assms(1)]
  let ?i = "fst (randint 0 L g)" and ?j = "fst (randint 0 L (stl g))"
  have i: "in_range L ?i"
    by (rule randint_in_range [OF assms(2,3)])
  have j: "in_range L ?j"
    by (rule randint_in_range [OF uniform_tape_stl [OF assms(2)] assms(3)])
  from cell_is_spin [OF assms(1) i j] have "is_spin (- cell lattice ?i ?j)"
    by (auto simp: is_spin_def)
  then have "valid_lattice L (set_cell lattice ?i ?j (- cell lattice ?i ?j))"
    by (rule valid_set_cell [OF assms(1) i])
  moreover have "uniform_tape (stl (stl g))" "uniform_tape (stl (stl (stl g)))"
    using assms(2) by (simp_all add: uniform_tape_stl)
  ultimately show ?thesis
    using assms(1) by (simp add: metropolis_trial_result Let_def L)
qed

lemma metropolis_trial_engine_state:
  "0 < L \<Longrightarrow> engine_state L st \<Longrightarrow> engine_state L (metropolis_trial beta J h st)"
  using metropolis_trial_invariant [of L "fst st" "snd st" beta J h]
  by (simp add: engine_state_def)

lemma metropolis_trials_engine_state:
  "0 < L \<Longrightarrow> engine_state L st \<Longrightarrow> engine_state L ((metropolis_trial beta J h ^^ k) st)"
  by (induction k) (simp_all add: metropolis_trial_engine_state)

lemma metropolis_step_nb_engine_state:
  assumes "0 \<le> L" and "engine_state L st"
  shows "engine_state L (metropolis_step_nb beta J h st)"
proof (cases "L = 0")
  case True
  with assms(2) have "shape0 (fst st) = 0"
    by (simp add: engine_state_def valid_lattice_shape0)
  with assms(2) show ?thesis
    by (simp add: metropolis_step_nb_def)
next
  case False
  with assms(1) have "0 < L" by simp
  with assms(2) show ?thesis
    by (simp add: metropolis_step_nb_def Let_def for_range_funpow metropolis_trials_engine_state)
qed

text \<open>
  C1. A call of \<open>metropolis_step_nb\<close> on an L by L lattice is exactly L * L trial flips,
  one after the other. Each trial takes its site from two new draws of the generator,
  both in [0, L), and flips the spin there if and only if its energy change is at most
  zero or the next variate of the generator, a number of [0, 1) drawn only in that case,
  is below exp(-beta dE). (That the draws are uniform and independent is the
  generator's contract.)
\<close>

theorem metropolis_step_nb_trials:
  assumes "valid_lattice L lattice" and "uniform_tape g"
  shows "metropolis_step_nb beta J h (lattice, g) =
           (metropolis_trial beta J h ^^ nat (L * L)) (lattice, g) \<and>
         (\<forall>k < nat (L * L).
            case (metropolis_trial beta J h ^^ k) (lattice, g) of (lat, gk) \<Rightarrow>
              let i = fst (randint 0 L gk);
                  j = fst (randint 0 L (stl gk));
                  u = shd (stl (stl gk));
                  dE = delta_energy_nb lat i j J h
              in in_range L i \<and> in_range L j \<and> 0 \<le> u \<and> u < 1 \<and>
                 fst (metropolis_trial beta J h (lat, gk)) =
                   (if dE \<le> 0 \<or> u < exp (- beta * dE) then set_cell lat i j (- cell lat i j)
                    else lat) \<and>
                 snd (metropolis_trial beta J h (lat, gk)) =
                   (if dE \<le> 0 then stl (stl gk) else stl (stl (stl gk))))"
proof (intro conjI allI impI)
  show "metropolis_step_nb beta J h (lattice, g) =
          (metropolis_trial beta J h ^^ nat (L * L)) (lattice, g)"
    by (simp add: metropolis_step_nb_def for_range_funpow valid_lattice_shape0 [OF assms(1)])
next
  fix k
  assume "k < nat (L * L)"
  then have "L \<noteq> 0" by auto
  moreover from assms(1) have "0 \<le> L"
    by (auto simp: valid_lattice_def shape0_def)
  ultimately have pos: "0 < L" by simp
  obtain lat gk where st: "(metropolis_trial beta J h ^^ k) (lattice, g) = (lat, gk)"
    by (cases "(metropolis_trial beta J h ^^ k) (lattice, g)")
  from assms have "engine_state L (lattice, g)"
    by (simp add: engine_state_def)
  from metropolis_trials_engine_state [OF pos this, where beta = beta and J = J and h = h and k = k] st
  have v: "valid_lattice L lat" and t: "uniform_tape gk"
    by (simp_all add: engine_state_def)
  have "in_range L (fst (randint 0 L gk))"
    by (rule randint_in_range [OF t pos])
  moreover have "in_range L (fst (randint 0 L (stl gk)))"
    by (rule randint_in_range [OF uniform_tape_stl [OF t] pos])
  moreover have "0 \<le> shd (stl (stl gk)) \<and> shd (stl (stl gk)) < 1"
    by (rule uniform_tape_shd [OF uniform_tape_stl [OF uniform_tape_stl [OF t]]])
  ultimately show "case (metropolis_trial beta J h ^^ k) (lattice, g) of (lat, gk) \<Rightarrow>
              let i = fst (randint 0 L gk);
                  j = fst (randint 0 L (stl gk));
                  u = shd (stl (stl gk));
                  dE = delta_energy_nb lat i j J h
              in in_range L i \<and> in_range L j \<and> 0 \<le> u \<and> u < 1 \<and>
                 fst (metropolis_trial beta J h (lat, gk)) =
                   (if dE \<le> 0 \<or> u < exp (- beta * dE) then set_cell lat i j (- cell lat i j)
                    else lat) \<and>
                 snd (metropolis_trial beta J h (lat, gk)) =
                   (if dE \<le> 0 then stl (stl gk) else stl (stl (stl gk)))"
    by (simp add: st metropolis_trial_result Let_def valid_lattice_shape0 [OF v])
qed

theorem metropolis_step_nb_trials_witness:
  "valid_lattice 1 [[- 1]] \<and> uniform_tape (sconst 0) \<and>
   metropolis_step_nb 1 1 0 ([[- 1]], sconst 0) = ([[1]], sconst 0)"
proof -
  have v: "valid_lattice 1 [[- 1]]"
    by (simp add: valid_lattice_def shape0_def is_spin_def)
  have t: "uniform_tape (sconst 0)"
    by (simp add: uniform_tape_def)
  have "metropolis_trial 1 1 0 ([[- 1]], sconst 0) = ([[1]], sconst 0)"
    by (simp add: metropolis_trial_def randint_def random_def shape0_def delta_energy_nb_def
        cell_def set_cell_def Let_def)
  with metropolis_step_nb_trials [OF v t, of 1 1 0] v t show ?thesis
    by simp
qed

section \<open>The umbrella window sampler\<close>

lemma us_trial_result:
  assumes "0 < L"
  shows "us_trial beta J k_bias M0 L (lattice, M, g) =
     Inr (let i = fst (randint 0 L g);
              j = fst (randint 0 L (stl g));
              u = shd (stl (stl g));
              dE = fst (delta_E_and_dM lattice i j J k_bias M0 M);
              dM = - 2 * cell lattice i j
          in if dE \<le> 0 then (set_cell lattice i j (- cell lattice i j), M + dM, stl (stl g))
             else if u < exp (- beta * dE)
             then (set_cell lattice i j (- cell lattice i j), M + dM, stl (stl (stl g)))
             else (lattice, M, stl (stl (stl g))))"
  using assms
  by (simp add: us_trial_def Let_def randint_def random_def split_beta delta_E_and_dM_def)

lemma us_trial_step:
  assumes "us_state L (lattice, M, g)" and "0 < L"
  shows "\<exists>lattice' M' g'.
           us_trial beta J k_bias M0 L (lattice, M, g) = Inr (lattice', M', g') \<and>
           us_state L (lattice', M', g') \<and>
           (lattice' = lattice \<and> M' = M \<or>
            lattice' = set_cell lattice (fst (randint 0 L g)) (fst (randint 0 L (stl g)))
                         (- cell lattice (fst (randint 0 L g)) (fst (randint 0 L (stl g)))) \<and>
            (M' = M + 2 \<or> M' = M - 2))"
proof -
  from assms(1) have v: "valid_lattice L lattice" and M: "M = total_sum lattice"
    and t: "uniform_tape g"
    by (simp_all add: us_state_def)
  let ?i = "fst (randint 0 L g)" and ?j = "fst (randint 0 L (stl g))"
  have i: "in_range L ?i"
    by (rule randint_in_range [OF t assms(2)])
  have j: "in_range L ?j"
    by (rule randint_in_range [OF uniform_tape_stl [OF t] assms(2)])
  have spin: "is_spin (cell lattice ?i ?j)"
    by (rule cell_is_spin [OF v i j])
  then have "is_spin (- cell lattice ?i ?j)"
    by (auto simp: is_spin_def)
  then have v': "valid_lattice L (set_cell lattice ?i ?j (- cell lattice ?i ?j))"
    by (rule valid_set_cell [OF v i])
  have sum': "total_sum (set_cell lattice ?i ?j (- cell lattice ?i ?j)) =
      M + - 2 * cell lattice ?i ?j"
    by (simp add: total_sum_set_cell [OF v i j] M)
  from spin have pm: "M + - 2 * cell lattice ?i ?j = M + 2 \<or> M + - 2 * cell lattice ?i ?j = M - 2"
    by (auto simp: is_spin_def)
  have t2: "uniform_tape (stl (stl g))" and t3: "uniform_tape (stl (stl (stl g)))"
    using t by (simp_all add: uniform_tape_stl)
  from v M v' sum' pm t2 t3 show ?thesis
    unfolding us_trial_result [OF assms(2)] Let_def us_state_def
    by (simp split: if_splits)
qed

lemma linspace_ends:
  assumes "2 \<le> n"
  shows "linspace a b n \<noteq> [] \<and> length (linspace a b n) = n \<and>
         hd (linspace a b n) = a \<and> last (linspace a b n) = b"
proof -
  let ?xs = "map (\<lambda>k. a + real k * ((b - a) / real (n - 1))) [0..<n]"
  from assms have eq: "linspace a b n = ?xs[n - 1 := b]"
    by (simp add: linspace_def)
  from assms have len: "length (?xs[n - 1 := b]) = n" and ne: "?xs[n - 1 := b] \<noteq> []"
    by auto
  from assms have "(?xs[n - 1 := b]) ! 0 = a"
    by (simp add: nth_list_update)
  with ne have "hd (?xs[n - 1 := b]) = a"
    by (simp add: hd_conv_nth)
  moreover from assms have "(?xs[n - 1 := b]) ! (n - 1) = b"
    by simp
  with ne len have "last (?xs[n - 1 := b]) = b"
    by (simp add: last_conv_nth)
  ultimately show ?thesis
    using eq len ne by simp
qed

lemma hist_index_bound:
  assumes "2 \<le> bins" and "0 < L" and "- (L * L) \<le> M" and "M \<le> L * L"
  shows "\<exists>idx. hist_index M (linspace (real_of_int (- L * L)) (real_of_int (L * L)) (nat bins))
                  bins = Inr idx \<and> 0 \<le> idx \<and> idx \<le> bins - 1"
proof -
  define a where "a = real_of_int (L * L)"
  define grid where "grid = linspace (- a) a (nat bins)"
  define x where "x = (real_of_int M - (- a)) / (a - (- a)) * real_of_int (bins - 1)"
  from assms(1) have "2 \<le> nat bins" by simp
  note ends = linspace_ends [OF this, of "- a" a]
  from ends have grid: "grid \<noteq> []" "hd grid = - a" "last grid = a"
    by (simp_all add: grid_def)
  from assms(2) have "0 < L * L" by simp
  then have a: "0 < a"
    unfolding a_def by (simp only: of_int_0_less_iff)
  from assms(3) have "- a \<le> real_of_int M"
    unfolding a_def by (simp only: of_int_le_iff flip: of_int_minus)
  then have num0: "0 \<le> real_of_int M - (- a)" by simp
  from assms(4) have "real_of_int M \<le> a"
    unfolding a_def by (simp only: of_int_le_iff)
  then have num1: "real_of_int M - (- a) \<le> a - (- a)" by simp
  from a have den: "0 < a - (- a)" by simp
  from num0 den have frac0: "0 \<le> (real_of_int M - (- a)) / (a - (- a))"
    by (rule divide_nonneg_pos)
  from num1 den have frac1: "(real_of_int M - (- a)) / (a - (- a)) \<le> 1"
    by (simp only: divide_le_eq_1_pos)
  from assms(1) have b0: "0 \<le> real_of_int (bins - 1)" by simp
  from frac0 b0 have x0: "0 \<le> x"
    unfolding x_def by (rule mult_nonneg_nonneg)
  from frac1 b0 have "(real_of_int M - (- a)) / (a - (- a)) * real_of_int (bins - 1)
      \<le> 1 * real_of_int (bins - 1)"
    by (rule mult_right_mono)
  then have x1: "x \<le> real_of_int (bins - 1)"
    by (simp add: x_def)
  from x0 have "0 \<le> \<lfloor>x\<rfloor>" by simp
  moreover from x1 have "\<lfloor>x\<rfloor> \<le> bins - 1"
    by (simp only: floor_le_iff)
  moreover from den grid x0 have "hist_index M grid bins = Inr \<lfloor>x\<rfloor>"
    by (simp add: hist_index_def py_int_def Let_def x_def)
  moreover have "linspace (real_of_int (- L * L)) (real_of_int (L * L)) (nat bins) = grid"
    by (simp add: grid_def a_def)
  ultimately show ?thesis by metis
qed

lemma hist_increment_in_bounds:
  assumes "0 \<le> idx" and "idx < int (length hist)"
  shows "hist_increment hist idx = Inr (hist[nat idx := hist ! nat idx + 1]) \<and>
         length (hist[nat idx := hist ! nat idx + 1]) = length hist \<and>
         sum_list (hist[nat idx := hist ! nat idx + 1]) = sum_list hist + 1"
proof -
  from assms have "nat idx < length hist" by simp
  then have "sum_list (hist[nat idx := hist ! nat idx + 1]) = sum_list hist + 1"
    by (simp add: sum_list_update_int)
  with assms show ?thesis
    by (simp add: hist_increment_def)
qed

lemma us_measure_trial_step:
  assumes "us_state L (lattice, M, g)" and "0 < L" and "2 \<le> bins"
    and "length hist = nat bins"
    and "Mgrid = linspace (real_of_int (- L * L)) (real_of_int (L * L)) (nat bins)"
  shows "\<exists>lattice' M' g' idx.
           us_trial beta J k_bias M0 L (lattice, M, g) = Inr (lattice', M', g') \<and>
           us_state L (lattice', M', g') \<and>
           hist_index M' Mgrid bins = Inr idx \<and> 0 \<le> idx \<and> idx \<le> bins - 1 \<and>
           us_measure_trial beta J k_bias M0 L bins Mgrid ((lattice, M, g), hist) =
             Inr ((lattice', M', g'), hist[nat idx := hist ! nat idx + 1]) \<and>
           length (hist[nat idx := hist ! nat idx + 1]) = nat bins \<and>
           sum_list (hist[nat idx := hist ! nat idx + 1]) = sum_list hist + 1"
proof -
  from us_trial_step [OF assms(1,2), of beta J k_bias M0]
  obtain lattice' M' g' where
    tr: "us_trial beta J k_bias M0 L (lattice, M, g) = Inr (lattice', M', g')"
    and st: "us_state L (lattice', M', g')"
    by blast
  from st have "\<bar>M'\<bar> \<le> L * L"
    using total_sum_bound [of L lattice'] by (simp add: us_state_def)
  then have "- (L * L) \<le> M'" and "M' \<le> L * L" by simp_all
  from hist_index_bound [OF assms(3,2) this] assms(5)
  obtain idx where idx: "hist_index M' Mgrid bins = Inr idx" "0 \<le> idx" "idx \<le> bins - 1"
    by blast
  from idx(3) assms(3,4) have "idx < int (length hist)" by simp
  from hist_increment_in_bounds [OF idx(2) this] tr st idx assms(4) show ?thesis
    by (simp add: us_measure_trial_def)
qed

lemma us_eq_loop:
  assumes "us_state L s" and "0 < L"
  shows "\<exists>s'. for_range_err n (us_trial beta J k_bias M0 L) s = Inr s' \<and> us_state L s'"
proof (rule for_range_err_invariant [where P = "us_state L", OF assms(1)])
  fix t
  assume "us_state L t"
  then show "\<exists>t'. us_trial beta J k_bias M0 L t = Inr t' \<and> us_state L t'"
    using us_trial_step [of L "fst t" "fst (snd t)" "snd (snd t)" beta J k_bias M0] assms(2)
    by auto
qed

lemma us_measure_loop:
  assumes "us_state L s" and "0 < L" and "2 \<le> bins" and "length hist = nat bins"
    and "Mgrid = linspace (real_of_int (- L * L)) (real_of_int (L * L)) (nat bins)"
  shows "\<exists>s' hist'.
           for_range_err n (us_measure_trial beta J k_bias M0 L bins Mgrid) (s, hist) =
             Inr (s', hist') \<and>
           us_state L s' \<and> length hist' = nat bins \<and> sum_list hist' = sum_list hist + real n"
proof -
  let ?P = "\<lambda>c st. us_state L (fst st) \<and> length (snd st) = nat bins \<and>
                     sum_list (snd st) = sum_list hist + real c"
  have step: "\<exists>t'. us_measure_trial beta J k_bias M0 L bins Mgrid t = Inr t' \<and> ?P (Suc c) t'"
    if "?P c t" for c t
  proof -
    obtain lattice M g h where t: "t = ((lattice, M, g), h)"
      by (cases t) auto
    from that t have "us_state L (lattice, M, g)" and "length h = nat bins"
      and "sum_list h = sum_list hist + real c"
      by simp_all
    from us_measure_trial_step [OF this(1) assms(2,3) this(2) assms(5), of beta J k_bias M0]
      this(3) t
    show ?thesis by auto
  qed
  from assms(1,4) have "?P 0 (s, hist)" by simp
  from for_range_err_counting [where P = ?P and n = n, OF this step]
  show ?thesis by auto
qed

lemma run_window_us_returns:
  assumes "0 < L" and "T \<noteq> 0" and "2 \<le> bins" and "uniform_tape g"
  shows "\<exists>hist g'.
           run_window_us L T J k_bias M0 n_eq n_steps bins g =
             Inr ((hist, linspace (real_of_int (- L * L)) (real_of_int (L * L)) (nat bins)), g') \<and>
           length hist = nat bins \<and> sum_list hist = real (nat n_steps)"
proof -
  let ?grid = "linspace (real_of_int (- L * L)) (real_of_int (L * L)) (nat bins)"
  from assms(1) have "0 \<le> L" by simp
  from init_lattice_nb_valid [OF this, of g] assms(4)
  obtain lattice g1 where init: "init_lattice_nb L g = Inr (lattice, g1)"
    and "valid_lattice L lattice" and "uniform_tape g1"
    by blast
  then have s0: "us_state L (lattice, total_sum lattice, g1)"
    by (simp add: us_state_def)
  from us_eq_loop [OF s0 assms(1), of "nat n_eq" "1 / T" J k_bias M0]
  obtain s1 where eq: "for_range_err (nat n_eq) (us_trial (1 / T) J k_bias M0 L)
      (lattice, total_sum lattice, g1) = Inr s1" and s1: "us_state L s1"
    by blast
  have "length (replicate (nat bins) (0::real)) = nat bins" by simp
  from us_measure_loop [OF s1 assms(1,3) this refl, of "nat n_steps" "1 / T" J k_bias M0]
  obtain s2 hist' where me: "for_range_err (nat n_steps)
      (us_measure_trial (1 / T) J k_bias M0 L bins ?grid) (s1, replicate (nat bins) 0) =
      Inr (s2, hist')"
    and "length hist' = nat bins"
    and "sum_list hist' = sum_list (replicate (nat bins) (0::real)) + real (nat n_steps)"
    by blast
  moreover have "sum_list (replicate (nat bins) (0::real)) = 0"
    by (simp add: sum_list_replicate)
  moreover obtain lattice2 M2 g2 where "s2 = (lattice2, M2, g2)"
    by (cases s2) auto
  ultimately show ?thesis
    using assms(2,3) init eq
    by (simp add: run_window_us_def Let_def del: of_int_minus of_int_mult)
qed

lemma linspace_3: "linspace (- 4) 4 3 = [- 4, 0, 4]"
  by (simp add: linspace_def upt_rec)

lemma us_trial_zeros_2:
  "us_trial 1 1 2 0 2 ([[- 1, - 1], [- 1, - 1]], - 4, sconst 0) =
     Inr ([[1, - 1], [- 1, - 1]], - 2, sconst 0)"
  by (simp add: us_trial_def randint_zeros random_zeros delta_E_and_dM_def shape0_def cell_def
      set_cell_def Let_def)

lemma hist_index_3: "hist_index (- 2) [- 4, 0, 4] 3 = Inr 0"
  by (simp add: hist_index_def py_int_def)

lemma run_window_us_zeros_2:
  "run_window_us 2 1 1 2 0 0 1 3 (sconst 0) = Inr (([1, 0, 0], [- 4, 0, 4]), sconst 0)"
proof -
  have "replicate 3 (0::real) = [0, 0, 0]"
    by (simp add: numeral_3_eq_3)
  then show ?thesis
    by (simp add: run_window_us_def init_lattice_nb_zeros_2 linspace_3 us_trial_zeros_2
        hist_index_3 total_sum_def us_measure_trial_def hist_increment_def Let_def)
qed

text \<open>
  C4. In \<open>run_window_us\<close> the tracked M starts as the sum of the fresh lattice. After any
  number n of equilibration trials and any number m of measurement trials, accepted or
  not, the state is one in which M is the sum of the lattice, and so M lies between
  -L * L and L * L. A trial from such a state either leaves lattice and M alone or flips
  the one spin and moves M by exactly +2 or -2.
\<close>

theorem tracked_magnetization_consistent:
  assumes "0 < L" and "uniform_tape g" and "2 \<le> bins"
  shows "\<exists>lattice0 g0.
           init_lattice_nb L g = Inr (lattice0, g0) \<and>
           (\<forall>n m. \<exists>lattice1 M1 g1 lattice2 M2 g2 hist.
              for_range_err n (us_trial beta J k_bias M0 L) (lattice0, total_sum lattice0, g0) =
                Inr (lattice1, M1, g1) \<and>
              us_state L (lattice1, M1, g1) \<and> M1 = total_sum lattice1 \<and>
              - (L * L) \<le> M1 \<and> M1 \<le> L * L \<and>
              for_range_err m
                (us_measure_trial beta J k_bias M0 L bins
                   (linspace (real_of_int (- L * L)) (real_of_int (L * L)) (nat bins)))
                ((lattice1, M1, g1), replicate (nat bins) 0) =
                Inr ((lattice2, M2, g2), hist) \<and>
              us_state L (lattice2, M2, g2) \<and> M2 = total_sum lattice2 \<and>
              - (L * L) \<le> M2 \<and> M2 \<le> L * L) \<and>
           (\<forall>lattice M g'.
              us_state L (lattice, M, g') \<longrightarrow>
              (\<exists>lattice' M' g''.
                 us_trial beta J k_bias M0 L (lattice, M, g') = Inr (lattice', M', g'') \<and>
                 us_state L (lattice', M', g'') \<and>
                 (lattice' = lattice \<and> M' = M \<or>
                  lattice' = set_cell lattice (fst (randint 0 L g')) (fst (randint 0 L (stl g')))
                               (- cell lattice (fst (randint 0 L g'))
                                    (fst (randint 0 L (stl g')))) \<and>
                  (M' = M + 2 \<or> M' = M - 2))))"
proof -
  let ?grid = "linspace (real_of_int (- L * L)) (real_of_int (L * L)) (nat bins)"
  have bound: "- (L * L) \<le> M \<and> M \<le> L * L \<and> M = total_sum lattice"
    if "us_state L (lattice, M, t)" for lattice M t
    using that total_sum_bound [of L lattice] by (auto simp: us_state_def)
  from assms(1) have "0 \<le> L" by simp
  from init_lattice_nb_valid [OF this, of g] assms(2)
  obtain lattice0 g0 where init: "init_lattice_nb L g = Inr (lattice0, g0)"
    and "valid_lattice L lattice0" and "uniform_tape g0"
    by blast
  then have s0: "us_state L (lattice0, total_sum lattice0, g0)"
    by (simp add: us_state_def)
  have loops: "\<exists>lattice1 M1 g1 lattice2 M2 g2 hist.
              for_range_err n (us_trial beta J k_bias M0 L) (lattice0, total_sum lattice0, g0) =
                Inr (lattice1, M1, g1) \<and>
              us_state L (lattice1, M1, g1) \<and> M1 = total_sum lattice1 \<and>
              - (L * L) \<le> M1 \<and> M1 \<le> L * L \<and>
              for_range_err m (us_measure_trial beta J k_bias M0 L bins ?grid)
                ((lattice1, M1, g1), replicate (nat bins) 0) =
                Inr ((lattice2, M2, g2), hist) \<and>
              us_state L (lattice2, M2, g2) \<and> M2 = total_sum lattice2 \<and>
              - (L * L) \<le> M2 \<and> M2 \<le> L * L" for n m
  proof -
    from us_eq_loop [OF s0 assms(1), of n beta J k_bias M0]
    obtain lattice1 M1 g1 where
      eq: "for_range_err n (us_trial beta J k_bias M0 L) (lattice0, total_sum lattice0, g0) =
        Inr (lattice1, M1, g1)" and s1: "us_state L (lattice1, M1, g1)"
      by auto
    have "length (replicate (nat bins) (0::real)) = nat bins" by simp
    from us_measure_loop [OF s1 assms(1,3) this refl, of m beta J k_bias M0]
    obtain lattice2 M2 g2 hist where
      me: "for_range_err m (us_measure_trial beta J k_bias M0 L bins ?grid)
        ((lattice1, M1, g1), replicate (nat bins) 0) = Inr ((lattice2, M2, g2), hist)"
      and s2: "us_state L (lattice2, M2, g2)"
      by auto
    from eq s1 me s2 bound [OF s1] bound [OF s2] show ?thesis
      by blast
  qed
  have step: "\<exists>lattice' M' g''.
      us_trial beta J k_bias M0 L (lattice, M, g') = Inr (lattice', M', g'') \<and>
      us_state L (lattice', M', g'') \<and>
      (lattice' = lattice \<and> M' = M \<or>
       lattice' = set_cell lattice (fst (randint 0 L g')) (fst (randint 0 L (stl g')))
                    (- cell lattice (fst (randint 0 L g')) (fst (randint 0 L (stl g')))) \<and>
       (M' = M + 2 \<or> M' = M - 2))"
    if "us_state L (lattice, M, g')" for lattice M g'
    by (rule us_trial_step [OF that assms(1)])
  from init loops step show ?thesis
    by blast
qed

theorem tracked_magnetization_consistent_witness:
  "0 < (2::int) \<and> uniform_tape (sconst 0) \<and> (2::int) \<le> 3 \<and>
   init_lattice_nb 2 (sconst 0) = Inr ([[- 1, - 1], [- 1, - 1]], sconst 0) \<and>
   us_state 2 ([[- 1, - 1], [- 1, - 1]], - 4, sconst 0) \<and>
   us_trial 1 1 2 0 2 ([[- 1, - 1], [- 1, - 1]], - 4, sconst 0) =
     Inr ([[1, - 1], [- 1, - 1]], - 2, sconst 0) \<and>
   us_state 2 ([[1, - 1], [- 1, - 1]], - 2, sconst 0)"
proof -
  have s: "us_state 2 ([[- 1, - 1], [- 1, - 1]], - 4, sconst 0)"
    by (simp add: us_state_def valid_lattice_def shape0_def is_spin_def total_sum_def
        uniform_tape_zeros)
  from tracked_magnetization_consistent [OF _ uniform_tape_zeros, of 2 3 1 1 2 0]
  have "\<forall>lattice M g'.
          us_state 2 (lattice, M, g') \<longrightarrow>
          (\<exists>lattice' M' g''.
             us_trial 1 1 2 0 2 (lattice, M, g') = Inr (lattice', M', g'') \<and>
             us_state 2 (lattice', M', g''))"
    by simp blast
  with s have "\<exists>lattice' M' g''.
      us_trial 1 1 2 0 2 ([[- 1, - 1], [- 1, - 1]], - 4, sconst 0) = Inr (lattice', M', g'') \<and>
      us_state 2 (lattice', M', g'')"
    by blast
  then have "us_state 2 ([[1, - 1], [- 1, - 1]], - 2, sconst 0)"
    by (simp add: us_trial_zeros_2)
  with s show ?thesis
    by (simp add: uniform_tape_zeros init_lattice_nb_zeros_2 us_trial_zeros_2)
qed

subsection \<open>Rounding to a 64-bit float\<close>

lemma powi_Suc: "(2::real) powi (e + 1) = 2 * 2 powi e"
  by (simp add: power_int_add)

lemma expo_up_bounds:
  "1 \<le> x \<Longrightarrow> 2 powi expo_up x \<le> x \<and> x < 2 powi (expo_up x + 1) \<and> 0 \<le> expo_up x"
proof (induction x rule: expo_up.induct)
  case (1 x)
  show ?case
  proof (cases "2 \<le> x")
    case True
    then have step: "expo_up x = expo_up (x / 2) + 1"
      by (subst expo_up.simps) simp
    from True have "1 \<le> x / 2" by simp
    from "1.IH" [OF True this] have
      lo: "2 powi expo_up (x / 2) \<le> x / 2" and hi: "x / 2 < 2 powi (expo_up (x / 2) + 1)"
      and e: "0 \<le> expo_up (x / 2)"
      by simp_all
    from lo have "2 * 2 powi expo_up (x / 2) \<le> x" by simp
    then have "2 powi (expo_up (x / 2) + 1) \<le> x"
      by (simp only: powi_Suc)
    moreover from hi have "x < 2 * 2 powi (expo_up (x / 2) + 1)" by simp
    then have "x < 2 powi (expo_up (x / 2) + 1 + 1)"
      by (simp only: powi_Suc)
    ultimately show ?thesis
      unfolding step using e by simp
  next
    case False
    then have "expo_up x = 0"
      by (subst expo_up.simps) simp
    with False "1.prems" show ?thesis
      by simp
  qed
qed

lemma expo_down_bounds:
  "0 < x \<Longrightarrow> x < 1 \<Longrightarrow>
     2 powi expo_down x \<le> x \<and> x < 2 powi (expo_down x + 1) \<and> expo_down x < 0"
proof (induction x rule: expo_down.induct)
  case (1 x)
  from "1.prems" have c: "0 < x \<and> x < 1" by simp
  have step: "expo_down x = expo_down (2 * x) - 1"
    using c by (subst expo_down.simps) simp
  show ?case
  proof (cases "2 * x < 1")
    case True
    from "1.prems" have "0 < 2 * x" by simp
    from "1.IH" [OF c this True] have
      lo: "2 powi expo_down (2 * x) \<le> 2 * x" and hi: "2 * x < 2 powi (expo_down (2 * x) + 1)"
      and e: "expo_down (2 * x) < 0"
      by simp_all
    have a: "(2::real) powi expo_down (2 * x) = 2 * 2 powi (expo_down (2 * x) - 1)"
      using powi_Suc [of "expo_down (2 * x) - 1"] by simp
    have b: "(2::real) powi (expo_down (2 * x) + 1) = 2 * 2 powi (expo_down (2 * x) - 1 + 1)"
      using powi_Suc [of "expo_down (2 * x)"] by simp
    from lo have "2 powi (expo_down (2 * x) - 1) \<le> x"
      unfolding a by simp
    moreover from hi have "x < 2 powi (expo_down (2 * x) - 1 + 1)"
      unfolding b by simp
    ultimately show ?thesis
      unfolding step using e by simp
  next
    case False
    then have "expo_down (2 * x) = 0"
      by (subst expo_down.simps) simp
    with False "1.prems" show ?thesis
      unfolding step by (simp add: power_int_minus field_simps)
  qed
qed

lemma exponent_bounds:
  assumes "0 < x"
  shows "2 powi exponent x \<le> x \<and> x < 2 powi (exponent x + 1)"
  using assms expo_up_bounds [of x] expo_down_bounds [of x]
  by (cases "1 \<le> x") (simp_all add: exponent_def)

lemma exponent_nonneg: "1 \<le> x \<Longrightarrow> 0 \<le> exponent x"
  using expo_up_bounds [of x] by (simp add: exponent_def)


lemma round_even_of_int: "round_even (real_of_int k) = k"
  by (simp add: round_even_def)

lemma round_even_le:
  assumes "y \<le> real_of_int k"
  shows "round_even y \<le> k"
proof (cases "y = real_of_int k")
  case True
  then show ?thesis by (simp add: round_even_of_int)
next
  case False
  with assms have "y < real_of_int k" by simp
  then have "\<lfloor>y\<rfloor> < k"
    by (simp add: floor_less_iff)
  then show ?thesis
    by (simp add: round_even_def Let_def)
qed

lemma round_even_nonneg: "0 \<le> y \<Longrightarrow> 0 \<le> round_even y"
  by (simp add: round_even_def Let_def)

lemma fl64_nonneg:
  assumes "0 \<le> x"
  shows "0 \<le> fl64 x"
proof (cases "x = 0")
  case True
  then show ?thesis by (simp add: fl64_def)
next
  case False
  from assms have "0 \<le> x / 2 powi (exponent \<bar>x\<bar> - 52)"
    by simp
  then have "0 \<le> round_even (x / 2 powi (exponent \<bar>x\<bar> - 52))"
    by (rule round_even_nonneg)
  with False show ?thesis
    by (simp add: fl64_def Let_def)
qed

lemma scaled_int:
  assumes "e \<le> 52"
  shows "real_of_int n / 2 powi (e - 52) = real_of_int (n * 2 ^ nat (52 - e))"
proof -
  from assms have "(2::real) powi (e - 52) = inverse 2 ^ nat (52 - e)"
    by (cases "e = 52") (simp_all add: power_int_def)
  then show ?thesis
    by (simp add: power_inverse field_simps)
qed

lemma exponent_le_53:
  assumes "0 < x" and "x \<le> 2 ^ 53"
  shows "exponent x \<le> 53"
proof -
  from exponent_bounds [OF assms(1)] assms(2) have "(2::real) powi exponent x \<le> 2 powi 53"
    by simp
  then show ?thesis
    by (rule power_int_le_imp_le_exp [rotated]) simp_all
qed

lemma fl64_int_scaled:
  assumes "x \<noteq> 0" and "x / 2 powi (exponent \<bar>x\<bar> - 52) = real_of_int k"
  shows "fl64 x = x"
proof -
  have "(2::real) powi (exponent \<bar>x\<bar> - 52) \<noteq> 0"
    by simp
  with assms(2) have "x = real_of_int k * 2 powi (exponent \<bar>x\<bar> - 52)"
    by (simp add: field_simps)
  with assms show ?thesis
    by (simp add: fl64_def Let_def round_even_of_int)
qed

lemma fl64_two_53: "fl64 (2 ^ 53) = 2 ^ 53"
proof -
  have pos: "(0::real) < 2 ^ 53" by simp
  from exponent_bounds [OF pos] have lo: "(2::real) powi exponent (2 ^ 53) \<le> 2 powi 53"
    and hi: "(2::real) powi 53 < 2 powi (exponent (2 ^ 53) + 1)"
    by simp_all
  from lo have "exponent (2 ^ 53) \<le> 53"
    by (rule power_int_le_imp_le_exp [rotated]) simp_all
  moreover have "0 \<le> exponent (2 ^ 53)"
    by (rule exponent_nonneg) simp
  then have "0 \<le> exponent (2 ^ 53) + 1"
    by simp
  with hi have "53 < exponent (2 ^ 53) + 1"
    by (rule power_int_le_imp_less_exp [rotated 1]) simp
  ultimately have e: "exponent \<bar>2 ^ 53\<bar> = 53"
    by simp
  have "(2::real) ^ 53 / 2 powi (53 - 52) = real_of_int (2 ^ 52)"
    by simp
  with fl64_int_scaled [of "2 ^ 53" "2 ^ 52"] e show ?thesis
    by simp
qed

lemma fl64_of_int:
  assumes "0 \<le> n" and "n \<le> 2 ^ 53"
  shows "fl64 (real_of_int n) = real_of_int n"
proof (cases "n = 0")
  case True
  then show ?thesis by (simp add: fl64_def)
next
  case False
  with assms(1) have pos: "0 < real_of_int n" by simp
  from assms(2) have le: "real_of_int n \<le> 2 ^ 53"
    by (metis of_int_le_iff of_int_numeral of_int_power)
  have e53: "exponent (real_of_int n) \<le> 53"
    by (rule exponent_le_53 [OF pos le])
  show ?thesis
  proof (cases "exponent (real_of_int n) \<le> 52")
    case True
    from pos have abs: "\<bar>real_of_int n\<bar> = real_of_int n" by simp
    have "real_of_int n / 2 powi (exponent \<bar>real_of_int n\<bar> - 52) =
        real_of_int (n * 2 ^ nat (52 - exponent (real_of_int n)))"
      unfolding abs by (rule scaled_int [OF True])
    moreover from pos have "real_of_int n \<noteq> 0" by simp
    ultimately show ?thesis
      by (rule fl64_int_scaled [rotated])
  next
    case False
    with e53 have "exponent (real_of_int n) = 53" by simp
    with exponent_bounds [OF pos] have "2 ^ 53 \<le> real_of_int n"
      by simp
    with le have "real_of_int n = 2 ^ 53" by simp
    then show ?thesis
      by (simp only: fl64_two_53)
  qed
qed

lemma fl64_le_int:
  assumes "x \<le> real_of_int n" and "1 \<le> n" and "n \<le> 2 ^ 53"
  shows "fl64 x \<le> real_of_int n"
proof (cases "0 < x")
  case False
  then have "x = 0 \<or> x < 0" by auto
  then show ?thesis
  proof
    assume "x = 0"
    with assms(2) show ?thesis by (simp add: fl64_def)
  next
    assume neg: "x < 0"
    then have "x / 2 powi (exponent \<bar>x\<bar> - 52) \<le> real_of_int 0"
      by (simp add: divide_le_0_iff)
    then have "round_even (x / 2 powi (exponent \<bar>x\<bar> - 52)) \<le> 0"
      by (rule round_even_le)
    then have "real_of_int (round_even (x / 2 powi (exponent \<bar>x\<bar> - 52))) *
        2 powi (exponent \<bar>x\<bar> - 52) \<le> 0"
      by (simp add: mult_le_0_iff)
    with neg assms(2) show ?thesis
      by (simp add: fl64_def Let_def)
  qed
next
  case True
  from assms(3) have n53: "real_of_int n \<le> 2 ^ 53"
    by (metis of_int_le_iff of_int_numeral of_int_power)
  with assms(1) have x53: "x \<le> 2 ^ 53" by simp
  have e53: "exponent x \<le> 53"
    by (rule exponent_le_53 [OF True x53])
  from True have abs: "\<bar>x\<bar> = x" by simp
  show ?thesis
  proof (cases "exponent x \<le> 52")
    case le52: True
    let ?u = "(2::real) powi (exponent x - 52)"
    have u: "0 < ?u" by simp
    from assms(1) u have "x / ?u \<le> real_of_int n / ?u"
      by (simp add: divide_right_mono)
    then have "x / ?u \<le> real_of_int (n * 2 ^ nat (52 - exponent x))"
      by (simp only: scaled_int [OF le52])
    then have "round_even (x / ?u) \<le> n * 2 ^ nat (52 - exponent x)"
      by (rule round_even_le)
    then have "real_of_int (round_even (x / ?u)) \<le> real_of_int (n * 2 ^ nat (52 - exponent x))"
      by (simp only: of_int_le_iff)
    then have "real_of_int (round_even (x / ?u)) \<le> real_of_int n / ?u"
      by (simp only: scaled_int [OF le52])
    with u have "real_of_int (round_even (x / ?u)) * ?u \<le> real_of_int n"
      by (simp add: pos_le_divide_eq)
    with True abs show ?thesis
      by (simp add: fl64_def Let_def)
  next
    case False
    with e53 have "exponent x = 53" by simp
    with exponent_bounds [OF True] have "2 ^ 53 \<le> x"
      by simp
    with x53 assms(1) n53 have "x = 2 ^ 53" and "real_of_int n = 2 ^ 53"
      by simp_all
    then show ?thesis
      by (simp only: fl64_two_53)
  qed
qed


lemma exponent_eqI:
  assumes "0 < x" and "2 powi e \<le> x" and "x < 2 powi (e + 1)"
  shows "exponent x = e"
proof -
  from exponent_bounds [OF assms(1)] assms(2,3)
  have a: "(2::real) powi exponent x < 2 powi (e + 1)"
    and b: "(2::real) powi e < 2 powi (exponent x + 1)"
    by simp_all
  have "exponent x < e + 1"
  proof (rule ccontr)
    assume "\<not> exponent x < e + 1"
    then have "e + 1 \<le> exponent x" by simp
    then have "(2::real) powi (e + 1) \<le> 2 powi exponent x"
      by (rule power_int_increasing) simp
    with a show False by simp
  qed
  moreover have "e < exponent x + 1"
  proof (rule ccontr)
    assume "\<not> e < exponent x + 1"
    then have "exponent x + 1 \<le> e" by simp
    then have "(2::real) powi (exponent x + 1) \<le> 2 powi e"
      by (rule power_int_increasing) simp
    with b show False by simp
  qed
  ultimately show ?thesis by simp
qed

lemma fl64_of_int_small:
  assumes "\<bar>n\<bar> < 2 ^ 53"
  shows "fl64 (real_of_int n) = real_of_int n"
proof (cases "n = 0")
  case True
  then show ?thesis by (simp add: fl64_def)
next
  case False
  then have pos: "0 < \<bar>real_of_int n\<bar>" by simp
  from assms have "real_of_int \<bar>n\<bar> < 2 ^ 53"
    by (metis of_int_less_iff of_int_numeral of_int_power)
  then have lt: "\<bar>real_of_int n\<bar> < 2 powi 53"
    by simp
  from exponent_bounds [OF pos] lt
  have "(2::real) powi exponent \<bar>real_of_int n\<bar> < 2 powi 53"
    by simp
  then have "exponent \<bar>real_of_int n\<bar> < 53"
    by (rule power_int_le_imp_less_exp [rotated]) simp_all
  then have "exponent \<bar>real_of_int n\<bar> \<le> 52"
    by simp
  then have "real_of_int n / 2 powi (exponent \<bar>real_of_int n\<bar> - 52) =
      real_of_int (n * 2 ^ nat (52 - exponent \<bar>real_of_int n\<bar>))"
    by (rule scaled_int)
  moreover from False have "real_of_int n \<noteq> 0" by simp
  ultimately show ?thesis
    by (rule fl64_int_scaled [rotated])
qed

lemma fl64_at:
  assumes "0 < x" and "2 powi e \<le> x" and "x < 2 powi (e + 1)"
  shows "fl64 x = real_of_int (round_even (x / 2 powi (e - 52))) * 2 powi (e - 52)"
proof -
  from assms(1) have "\<bar>x\<bar> = x" by simp
  with exponent_eqI [OF assms] assms(1) show ?thesis
    by (simp add: fl64_def Let_def)
qed

lemma hist_index_f64_bound:
  assumes "2 \<le> bins" and "bins \<le> 2 ^ 53" and "0 < L" and "L * L \<le> 2 ^ 52"
    and "- (L * L) \<le> M" and "M \<le> L * L"
  shows "\<exists>idx. hist_index_f64 M
                  (linspace (real_of_int (- L * L)) (real_of_int (L * L)) (nat bins)) bins =
                  Inr idx \<and> 0 \<le> idx \<and> idx \<le> bins - 1"
proof -
  define grid where "grid = linspace (real_of_int (- L * L)) (real_of_int (L * L)) (nat bins)"
  define q where "q = fl64 (real_of_int (M + L * L) / real_of_int (2 * (L * L)))"
  define p where "p = fl64 (q * real_of_int (bins - 1))"
  from assms(1) have "2 \<le> nat bins" by simp
  from linspace_ends [OF this, of "real_of_int (- L * L)" "real_of_int (L * L)"]
  have grid: "grid \<noteq> []" "hd grid = real_of_int (- L * L)" "last grid = real_of_int (L * L)"
    by (simp_all add: grid_def)
  from assms(4-6) have "\<bar>M\<bar> < 2 ^ 53"
    by simp
  then have fM: "fl64 (real_of_int M) = real_of_int M"
    by (rule fl64_of_int_small)
  from assms(4,5,6) have "0 \<le> M + L * L" and "M + L * L \<le> 2 ^ 53"
    by simp_all
  then have fnum: "fl64 (real_of_int (M + L * L)) = real_of_int (M + L * L)"
    by (rule fl64_of_int)
  from assms(3,4) have "0 \<le> 2 * (L * L)" and "2 * (L * L) \<le> 2 ^ 53"
    by simp_all
  then have fden: "fl64 (real_of_int (2 * (L * L))) = real_of_int (2 * (L * L))"
    by (rule fl64_of_int)
  from assms(1,2) have "0 \<le> bins - 1" and "bins - 1 \<le> 2 ^ 53"
    by simp_all
  then have fb: "fl64 (real_of_int (bins - 1)) = real_of_int (bins - 1)"
    by (rule fl64_of_int)
  have num: "fl64 (fl64 (real_of_int M) - hd grid) = real_of_int (M + L * L)"
    unfolding fM grid(2) using fnum by simp
  have den: "fl64 (last grid - hd grid) = real_of_int (2 * (L * L))"
    unfolding grid(2,3) using fden by simp
  from assms(3) have "0 < L * L" by simp
  then have "0 < 2 * (L * L)" by simp
  then have dpos: "0 < real_of_int (2 * (L * L))"
    by (simp only: of_int_0_less_iff)
  from assms(5) have "0 \<le> M + L * L" by simp
  then have npos: "0 \<le> real_of_int (M + L * L)"
    by (simp only: of_int_0_le_iff)
  from assms(6) have "M + L * L \<le> 2 * (L * L)" by simp
  then have "real_of_int (M + L * L) \<le> real_of_int (2 * (L * L))"
    by (simp only: of_int_le_iff)
  with dpos have frac1: "real_of_int (M + L * L) / real_of_int (2 * (L * L)) \<le> real_of_int 1"
    by (simp only: of_int_1 divide_le_eq_1_pos)
  from npos dpos have frac0: "0 \<le> real_of_int (M + L * L) / real_of_int (2 * (L * L))"
    by (rule divide_nonneg_pos)
  from frac0 have q0: "0 \<le> q"
    unfolding q_def by (rule fl64_nonneg)
  from frac1 have q1: "q \<le> 1"
    unfolding q_def using fl64_le_int [of _ 1] by simp
  from assms(1) have b0: "0 \<le> real_of_int (bins - 1)" by simp
  from q0 b0 have "0 \<le> q * real_of_int (bins - 1)"
    by (rule mult_nonneg_nonneg)
  then have p0: "0 \<le> p"
    unfolding p_def by (rule fl64_nonneg)
  from q1 b0 have "q * real_of_int (bins - 1) \<le> 1 * real_of_int (bins - 1)"
    by (rule mult_right_mono)
  then have "q * real_of_int (bins - 1) \<le> real_of_int (bins - 1)"
    by simp
  moreover from assms(1) have "1 \<le> bins - 1" by simp
  ultimately have p1: "p \<le> real_of_int (bins - 1)"
    unfolding p_def using \<open>bins - 1 \<le> 2 ^ 53\<close> by (rule fl64_le_int)
  from p0 have "0 \<le> \<lfloor>p\<rfloor>" by simp
  moreover from p1 have "\<lfloor>p\<rfloor> \<le> bins - 1"
    by (simp only: floor_le_iff)
  moreover from dpos have "real_of_int (2 * (L * L)) \<noteq> 0"
    by (rule less_imp_neq [THEN not_sym])
  with grid(1) p0 have "hist_index_f64 M grid bins = Inr \<lfloor>p\<rfloor>"
    unfolding hist_index_f64_def Let_def num den fb
    by (simp only: if_False q_def [symmetric] p_def [symmetric] py_int_def if_True)
  ultimately show ?thesis
    unfolding grid_def by blast
qed

lemma fl64_49th: "fl64 (1 / 49) = 5882252574524729 / 2 ^ 58"
  by (subst fl64_at [where e = "- 6"]) (simp_all add: power_int_minus round_even_def)

lemma fl64_49th_times_49: "fl64 (fl64 (1 / 49) * 49) = 9007199254740991 / 2 ^ 53"
  unfolding fl64_49th
  by (subst fl64_at [where e = "- 1"]) (simp_all add: power_int_minus round_even_def)

lemma fl64_7_10th: "fl64 (7 / 10) = 6305039478318694 / 2 ^ 53"
  by (subst fl64_at [where e = "- 1"]) (simp_all add: power_int_minus round_even_def)

lemma fl64_7_10th_times_350: "fl64 (fl64 (7 / 10) * 350) = 8620171161763839 / 2 ^ 45"
  unfolding fl64_7_10th
  by (subst fl64_at [where e = 7]) (simp_all add: power_int_minus round_even_def)

lemma hist_index_f64_at:
  assumes "2 \<le> n" and "\<bar>M\<bar> < 2 ^ 53" and "0 \<le> M + a" and "M + a \<le> 2 ^ 53"
    and "0 < a" and "2 * a \<le> 2 ^ 53" and "0 \<le> bins - 1" and "bins - 1 \<le> 2 ^ 53"
  shows "hist_index_f64 M (linspace (real_of_int (- a)) (real_of_int a) n) bins =
           Inr (py_int (fl64 (fl64 (real_of_int (M + a) / real_of_int (2 * a)) *
                  real_of_int (bins - 1))))"
proof -
  from linspace_ends [OF assms(1), of "real_of_int (- a)" "real_of_int a"]
  have grid: "linspace (real_of_int (- a)) (real_of_int a) n \<noteq> []"
    "hd (linspace (real_of_int (- a)) (real_of_int a) n) = real_of_int (- a)"
    "last (linspace (real_of_int (- a)) (real_of_int a) n) = real_of_int a"
    by simp_all
  have fM: "fl64 (real_of_int M) = real_of_int M"
    by (rule fl64_of_int_small [OF assms(2)])
  have "fl64 (real_of_int (M + a)) = real_of_int (M + a)"
    by (rule fl64_of_int [OF assms(3,4)])
  then have num: "fl64 (real_of_int M - real_of_int (- a)) = real_of_int (M + a)"
    by simp
  from assms(5) have "0 \<le> 2 * a" by simp
  then have "fl64 (real_of_int (2 * a)) = real_of_int (2 * a)"
    using assms(6) by (rule fl64_of_int)
  then have den: "fl64 (real_of_int a - real_of_int (- a)) = real_of_int (2 * a)"
    by simp
  have fb: "fl64 (real_of_int (bins - 1)) = real_of_int (bins - 1)"
    by (rule fl64_of_int [OF assms(7,8)])
  from assms(5) have "0 < 2 * a" by simp
  then have "0 < real_of_int (2 * a)"
    by (simp only: of_int_0_less_iff)
  then have "real_of_int (2 * a) \<noteq> 0"
    by (rule less_imp_neq [THEN not_sym])
  with grid(1) show ?thesis
    unfolding hist_index_f64_def Let_def grid(2,3) fM num den fb
    by (simp only: if_False)
qed

text \<open>
  Two places where the rounded computation and the exact one part: a 7 by 7 lattice with
  50 bins at M = -47, and a 10 by 10 lattice with 351 bins at M = 40.
\<close>

lemma hist_index_f64_7_50:
  "hist_index_f64 (- 47) (linspace (real_of_int (- 49)) (real_of_int 49) 50) 50 = Inr 0 \<and>
   hist_index (- 47) (linspace (real_of_int (- 49)) (real_of_int 49) 50) 50 = Inr 1"
proof -
  have "hist_index_f64 (- 47) (linspace (real_of_int (- 49)) (real_of_int 49) 50) 50 =
      Inr (py_int (fl64 (fl64 (real_of_int (- 47 + 49) / real_of_int (2 * 49)) *
             real_of_int (50 - 1))))"
    by (rule hist_index_f64_at) simp_all
  then have "hist_index_f64 (- 47) (linspace (real_of_int (- 49)) (real_of_int 49) 50) 50 = Inr 0"
    by (simp add: fl64_49th_times_49 py_int_def)
  moreover have "(2::nat) \<le> 50" by simp
  from linspace_ends [OF this, of "real_of_int (- 49)" "real_of_int 49"]
  have "hist_index (- 47) (linspace (real_of_int (- 49)) (real_of_int 49) 50) 50 = Inr 1"
    by (simp add: hist_index_def py_int_def)
  ultimately show ?thesis
    by simp
qed

lemma hist_index_f64_10_351:
  "hist_index_f64 40 (linspace (real_of_int (- 100)) (real_of_int 100) 351) 351 = Inr 244 \<and>
   hist_index 40 (linspace (real_of_int (- 100)) (real_of_int 100) 351) 351 = Inr 245"
proof -
  have "hist_index_f64 40 (linspace (real_of_int (- 100)) (real_of_int 100) 351) 351 =
      Inr (py_int (fl64 (fl64 (real_of_int (40 + 100) / real_of_int (2 * 100)) *
             real_of_int (351 - 1))))"
    by (rule hist_index_f64_at) simp_all
  then have "hist_index_f64 40 (linspace (real_of_int (- 100)) (real_of_int 100) 351) 351 =
      Inr 244"
    by (simp add: fl64_7_10th_times_350 py_int_def)
  moreover have "(2::nat) \<le> 351" by simp
  from linspace_ends [OF this, of "real_of_int (- 100)" "real_of_int 100"]
  have "hist_index 40 (linspace (real_of_int (- 100)) (real_of_int 100) 351) 351 = Inr 245"
    by (simp add: hist_index_def py_int_def)
  ultimately show ?thesis
    by simp
qed

text \<open>
  C5. With at least two bins and a magnetization M between -L * L and L * L, which is
  every M the sampler's state holds in a run of \<open>run_window_us\<close>, the bin index that
  the program's floats compute from M on the grid from -L * L to L * L lies between 0
  and bins - 1, and the increment of a histogram of \<open>bins\<close> entries at that index is in
  bounds. The integers that enter are taken to be ones a float holds exactly: a
  histogram of at most 2^53 bins and a lattice of at most 2^52 sites.
\<close>

theorem histogram_index_in_bounds:
  assumes "2 \<le> bins" and "bins \<le> 2 ^ 53" and "0 < L" and "L * L \<le> 2 ^ 52"
    and "- (L * L) \<le> M" and "M \<le> L * L" and "length hist = nat bins"
  shows "\<exists>idx.
           hist_index_f64 M
             (linspace (real_of_int (- L * L)) (real_of_int (L * L)) (nat bins)) bins = Inr idx \<and>
           0 \<le> idx \<and> idx \<le> bins - 1 \<and>
           hist_increment hist idx = Inr (hist[nat idx := hist ! nat idx + 1])"
proof -
  from hist_index_f64_bound [OF assms(1-6)]
  obtain idx where idx:
    "hist_index_f64 M (linspace (real_of_int (- L * L)) (real_of_int (L * L)) (nat bins)) bins =
       Inr idx" "0 \<le> idx" "idx \<le> bins - 1"
    by blast
  from idx(3) assms(1,7) have "idx < int (length hist)" by simp
  from hist_increment_in_bounds [OF idx(2) this]
  have "hist_increment hist idx = Inr (hist[nat idx := hist ! nat idx + 1])"
    by simp
  with idx show ?thesis
    by blast
qed

theorem histogram_index_in_bounds_witness:
  "(2::int) \<le> 50 \<and> (50::int) \<le> 2 ^ 53 \<and> 0 < (7::int) \<and> (7::int) * 7 \<le> 2 ^ 52 \<and>
   - (7 * 7) \<le> (- 47::int) \<and> (- 47::int) \<le> 7 * 7 \<and>
   length (replicate 50 (0::real)) = nat 50 \<and>
   hist_index_f64 (- 47) (linspace (real_of_int (- 7 * 7)) (real_of_int (7 * 7)) (nat 50)) 50 =
     Inr 0 \<and>
   hist_increment (replicate 50 0) 0 = Inr ((replicate 50 0)[nat 0 := replicate 50 0 ! nat 0 + 1])"
proof -
  have "(2::int) \<le> 50" and "(50::int) \<le> 2 ^ 53" and "0 < (7::int)" and "(7::int) * 7 \<le> 2 ^ 52"
    and "- (7 * 7) \<le> (- 47::int)" and "(- 47::int) \<le> 7 * 7"
    and "length (replicate 50 (0::real)) = nat 50"
    by simp_all
  from histogram_index_in_bounds [OF this] hist_index_f64_7_50
  show ?thesis
    by auto
qed

subsection \<open>The run of one window\<close>

text \<open>
  C9, as the program has it. For one target M0, \<open>run_window_us\<close> initialises a fresh
  lattice, runs n_eq single biased trial flips that leave the histogram alone, then
  n_steps single biased trial flips; a step is one trial and not a sweep of L * L of
  them. Each measurement trial, accepted or not, adds exactly one count, in the bin of the
  magnetization after the trial. The histogram has \<open>bins\<close> entries that sum to
  n_steps, on the grid of \<open>bins\<close> points from -L * L to L * L.
\<close>

theorem run_window_us_single_trials:
  assumes "0 < L" and "T \<noteq> 0" and "2 \<le> bins" and "uniform_tape g"
  shows "(\<exists>hist g'.
            run_window_us L T J k_bias M0 n_eq n_steps bins g =
              Inr ((hist, linspace (real_of_int (- L * L)) (real_of_int (L * L)) (nat bins)), g') \<and>
            length hist = nat bins \<and> sum_list hist = real (nat n_steps)) \<and>
         length (linspace (real_of_int (- L * L)) (real_of_int (L * L)) (nat bins)) = nat bins \<and>
         hd (linspace (real_of_int (- L * L)) (real_of_int (L * L)) (nat bins)) =
           real_of_int (- L * L) \<and>
         last (linspace (real_of_int (- L * L)) (real_of_int (L * L)) (nat bins)) =
           real_of_int (L * L) \<and>
         (\<forall>lattice M t hist.
            us_state L (lattice, M, t) \<and> length hist = nat bins \<longrightarrow>
            (\<exists>lattice' M' t' idx.
               us_trial (1 / T) J k_bias M0 L (lattice, M, t) = Inr (lattice', M', t') \<and>
               hist_index M'
                 (linspace (real_of_int (- L * L)) (real_of_int (L * L)) (nat bins)) bins =
                 Inr idx \<and>
               0 \<le> idx \<and> idx \<le> bins - 1 \<and>
               us_measure_trial (1 / T) J k_bias M0 L bins
                 (linspace (real_of_int (- L * L)) (real_of_int (L * L)) (nat bins))
                 ((lattice, M, t), hist) =
                 Inr ((lattice', M', t'), hist[nat idx := hist ! nat idx + 1])))"
proof -
  let ?grid = "linspace (real_of_int (- L * L)) (real_of_int (L * L)) (nat bins)"
  from assms(3) have "2 \<le> nat bins" by simp
  note ends = linspace_ends [OF this, of "real_of_int (- L * L)" "real_of_int (L * L)"]
  have step: "\<exists>lattice' M' t' idx.
               us_trial (1 / T) J k_bias M0 L (lattice, M, t) = Inr (lattice', M', t') \<and>
               hist_index M' ?grid bins = Inr idx \<and> 0 \<le> idx \<and> idx \<le> bins - 1 \<and>
               us_measure_trial (1 / T) J k_bias M0 L bins ?grid ((lattice, M, t), hist) =
                 Inr ((lattice', M', t'), hist[nat idx := hist ! nat idx + 1])"
    if "us_state L (lattice, M, t) \<and> length hist = nat bins" for lattice M t hist
  proof -
    from that have s: "us_state L (lattice, M, t)" and l: "length hist = nat bins"
      by simp_all
    from us_measure_trial_step [OF s assms(1,3) l refl, of "1 / T" J k_bias M0]
    show ?thesis by blast
  qed
  from run_window_us_returns [OF assms, of J k_bias M0 n_eq n_steps] ends step
  show ?thesis
    by blast
qed

theorem run_window_us_single_trials_witness:
  "0 < (2::int) \<and> (1::real) \<noteq> 0 \<and> (2::int) \<le> 3 \<and> uniform_tape (sconst 0) \<and>
   run_window_us 2 1 1 2 0 0 1 3 (sconst 0) = Inr (([1, 0, 0], [- 4, 0, 4]), sconst 0) \<and>
   sum_list [1::real, 0, 0] = real (nat 1)"
proof -
  have "0 < (2::int)" and "(1::real) \<noteq> 0" and "(2::int) \<le> 3"
    by simp_all
  from run_window_us_single_trials [OF this uniform_tape_zeros, of 1 2 0 0 1]
  have "\<exists>hist g'. run_window_us 2 1 1 2 0 0 1 3 (sconst 0) =
      Inr ((hist, linspace (real_of_int (- 2 * 2)) (real_of_int (2 * 2)) (nat 3)), g') \<and>
      length hist = nat 3 \<and> sum_list hist = real (nat 1)"
    by blast
  then show ?thesis
    by (simp add: uniform_tape_zeros run_window_us_zeros_2)
qed

text \<open>
  C9 as the specification words it has n_steps sweeps of L * L trials each, every trial
  adding one count: with L = 2 and n_steps = 1 the histogram would hold 4 counts. The run
  on the tape of zeros holds one.
\<close>

theorem run_window_us_sweeps_counterexample:
  "run_window_us 2 1 1 2 0 0 1 3 (sconst 0) = Inr (([1, 0, 0], [- 4, 0, 4]), sconst 0) \<and>
   sum_list [1::real, 0, 0] \<noteq> real_of_int (1 * (2 * 2))"
  by (simp add: run_window_us_zeros_2)

section \<open>Configurations the entry points are given\<close>

lemma measure_magnetization_nb_cases:
  "measure_magnetization_nb L T h n_eq n_steps J g =
     (if L < 0 then Inl ValueError
      else if T = 0 \<or> n_steps * L * L = 0 then Inl ZeroDivisionError
      else Inr (snd (snd (for_range (nat n_steps) (magnetization_step (1 / T) J h)
                  (case for_range (nat n_eq) (metropolis_step_nb (1 / T) J h)
                          (init_rows (nat L) (nat L) g) of
                     (lattice2, g2) \<Rightarrow> (lattice2, g2, 0)))) / real_of_int (n_steps * L * L),
                fst (snd (for_range (nat n_steps) (magnetization_step (1 / T) J h)
                  (case for_range (nat n_eq) (metropolis_step_nb (1 / T) J h)
                          (init_rows (nat L) (nat L) g) of
                     (lattice2, g2) \<Rightarrow> (lattice2, g2, 0))))))"
  by (simp add: measure_magnetization_nb_def init_lattice_nb_def Let_def split_beta
      del: of_int_mult)

lemma metropolis_trial_zeros_1:
  "metropolis_trial beta 1 0 ([[- 1]], sconst 0) = ([[1]], sconst 0)"
  by (simp add: metropolis_trial_def randint_zeros random_zeros shape0_def delta_energy_nb_def
      cell_def set_cell_def Let_def)

lemma metropolis_step_nb_zeros_1:
  "metropolis_step_nb beta 1 0 ([[- 1]], sconst 0) = ([[1]], sconst 0)"
  by (simp add: metropolis_step_nb_def shape0_def metropolis_trial_zeros_1)

text \<open>
  C6, as the program has it. The entry points check nothing at entry.
  \<open>measure_magnetization_nb\<close> fails only where one of its operations fails: allocating
  a lattice of negative size (ValueError), dividing by T = 0 or, at the end, by
  n_steps * L * L = 0 (ZeroDivisionError). For every other configuration, a negative T
  or a negative n_steps among them, it runs and returns a number. \<open>run_window_us\<close>
  returns a histogram for every L > 0, T other than 0 and at least two bins, whatever the
  signs of T, n_eq and n_steps.
\<close>

theorem entry_points_do_not_validate:
  "(L < 0 \<longrightarrow> measure_magnetization_nb L T h n_eq n_steps J g = Inl ValueError) \<and>
   (0 \<le> L \<and> (T = 0 \<or> n_steps = 0 \<or> L = 0) \<longrightarrow>
      measure_magnetization_nb L T h n_eq n_steps J g = Inl ZeroDivisionError) \<and>
   (0 < L \<and> T \<noteq> 0 \<and> n_steps \<noteq> 0 \<longrightarrow>
      (\<exists>m g'. measure_magnetization_nb L T h n_eq n_steps J g = Inr (m, g'))) \<and>
   (0 < L \<and> T \<noteq> 0 \<and> 2 \<le> bins \<and> uniform_tape g \<longrightarrow>
      (\<exists>r. run_window_us L T J k_bias M0 n_eq n_steps bins g = Inr r))"
proof (intro conjI impI)
  assume "L < 0"
  then show "measure_magnetization_nb L T h n_eq n_steps J g = Inl ValueError"
    by (simp add: measure_magnetization_nb_cases)
next
  assume "0 \<le> L \<and> (T = 0 \<or> n_steps = 0 \<or> L = 0)"
  then show "measure_magnetization_nb L T h n_eq n_steps J g = Inl ZeroDivisionError"
    by (auto simp: measure_magnetization_nb_cases)
next
  assume "0 < L \<and> T \<noteq> 0 \<and> n_steps \<noteq> 0"
  then show "\<exists>m g'. measure_magnetization_nb L T h n_eq n_steps J g = Inr (m, g')"
    by (simp add: measure_magnetization_nb_cases)
next
  assume "0 < L \<and> T \<noteq> 0 \<and> 2 \<le> bins \<and> uniform_tape g"
  then show "\<exists>r. run_window_us L T J k_bias M0 n_eq n_steps bins g = Inr r"
    using run_window_us_returns [of L T bins g J k_bias M0 n_eq n_steps] by blast
qed

theorem entry_points_do_not_validate_witness:
  "measure_magnetization_nb (- 1) 1 0 0 1 1 (sconst 0) = Inl ValueError \<and>
   measure_magnetization_nb 1 0 0 0 1 1 (sconst 0) = Inl ZeroDivisionError \<and>
   (\<exists>m g'. measure_magnetization_nb 1 (- 1) 0 0 (- 1) 1 (sconst 0) = Inr (m, g')) \<and>
   (\<exists>r. run_window_us 2 (- 1) 1 2 0 (- 1) (- 1) 3 (sconst 0) = Inr r)"
proof -
  note a = entry_points_do_not_validate [of "- 1" 1 0 0 1 1 "sconst 0" 2 2 0]
  note b = entry_points_do_not_validate [of 1 0 0 0 1 1 "sconst 0" 2 2 0]
  note c = entry_points_do_not_validate [of 1 "- 1" 0 0 "- 1" 1 "sconst 0" 2 2 0]
  note d = entry_points_do_not_validate [of 2 "- 1" 0 "- 1" "- 1" 1 "sconst 0" 3 2 0]
  from a have "measure_magnetization_nb (- 1) 1 0 0 1 1 (sconst 0) = Inl ValueError"
    by simp
  moreover from b have "measure_magnetization_nb 1 0 0 0 1 1 (sconst 0) = Inl ZeroDivisionError"
    by simp
  moreover from c have "\<exists>m g'. measure_magnetization_nb 1 (- 1) 0 0 (- 1) 1 (sconst 0) = Inr (m, g')"
    by simp
  moreover from d have "\<exists>r. run_window_us 2 (- 1) 1 2 0 (- 1) (- 1) 3 (sconst 0) = Inr r"
    using uniform_tape_zeros by simp
  ultimately show ?thesis
    by blast
qed

text \<open>
  C6 as the specification words it has every call with T at most 0 or n_steps at most 0
  rejected at entry. With T = -1 the magnetization measurement runs and returns 1; with
  n_steps = -1 it returns 0.
\<close>

theorem entry_validation_counterexample:
  "measure_magnetization_nb 1 (- 1) 0 0 1 1 (sconst 0) = Inr (1, sconst 0) \<and>
   measure_magnetization_nb 1 1 0 0 (- 1) 1 (sconst 0) = Inr (0, sconst 0)"
  by (simp add: measure_magnetization_nb_def init_lattice_nb_zeros_1 metropolis_step_nb_zeros_1
      magnetization_step_def total_sum_def)


section \<open>The correlators at separation zero\<close>

lemma py_range_in_range: "i \<in> set (py_range L) \<Longrightarrow> in_range L i"
  by (auto simp: py_range_def in_range_def)

lemma length_py_range: "length (py_range L) = nat L"
  by (simp add: py_range_def)

lemma py_range_Cons: "0 < n \<Longrightarrow> py_range n = 0 # map int [Suc 0..<nat n]"
  by (simp add: py_range_def upt_conv_Cons)

lemma of_int_sum_list: "real_of_int (sum_list xs) = sum_list (map real_of_int xs)"
  by (induction xs) simp_all

lemma in_range_mod: "in_range L i \<Longrightarrow> i mod L = i"
  by (simp add: in_range_def)

lemma sum_list_cong:
  fixes f g :: "'a \<Rightarrow> real"
  assumes "\<And>x. x \<in> set xs \<Longrightarrow> f x = g x"
  shows "(\<Sum>x\<leftarrow>xs. f x) = (\<Sum>x\<leftarrow>xs. g x)"
  using assms by (induction xs) simp_all

lemma sum_list_const_on:
  fixes f :: "'a \<Rightarrow> real"
  assumes "\<And>x. x \<in> set xs \<Longrightarrow> f x = c"
  shows "(\<Sum>x\<leftarrow>xs. f x) = real (length xs) * c"
  using assms by (induction xs) (simp_all add: algebra_simps)

lemma pair_sum_zero:
  assumes "valid_lattice L lattice"
  shows "pair_sum lattice L 0 = real_of_int (L * L)"
proof -
  have cell2: "real_of_int (cell lattice i j * cell lattice ((i + 0) mod L) j) = 1"
    if "i \<in> set (py_range L)" and "j \<in> set (py_range L)" for i j
  proof -
    from that have i: "in_range L i" and j: "in_range L j"
      by (simp_all add: py_range_in_range)
    from cell_is_spin [OF assms i j] have "cell lattice i j * cell lattice i j = 1"
      by (auto simp: is_spin_def)
    then have "real_of_int (cell lattice i j * cell lattice i j) = 1"
      by (simp only: of_int_1)
    with i show ?thesis
      by (simp add: in_range_mod)
  qed
  have row: "(\<Sum>j\<leftarrow>py_range L.
      real_of_int (cell lattice i j * cell lattice ((i + 0) mod L) j)) =
      real (length (py_range L)) * 1"
    if "i \<in> set (py_range L)" for i
    by (rule sum_list_const_on) (rule cell2 [OF that])
  have "pair_sum lattice L 0 = real (length (py_range L)) * (real (length (py_range L)) * 1)"
    unfolding pair_sum_def by (rule sum_list_const_on) (rule row)
  moreover from assms have "0 \<le> L"
    by (auto simp: valid_lattice_def shape0_def)
  ultimately show ?thesis
    by (simp add: length_py_range)
qed

lemma shift_sum_zero: "shift_sum lattice L 0 = real_of_int (total_spin lattice L)"
proof -
  have inner: "(\<Sum>j\<leftarrow>py_range L. real_of_int (cell lattice ((i + 0) mod L) j)) =
      real_of_int (\<Sum>j\<leftarrow>py_range L. cell lattice i j)"
    if "i \<in> set (py_range L)" for i
  proof -
    from that have "i mod L = i"
      by (simp add: py_range_in_range in_range_mod)
    then show ?thesis
      by (simp add: of_int_sum_list comp_def)
  qed
  have "shift_sum lattice L 0 =
      (\<Sum>i\<leftarrow>py_range L. real_of_int (\<Sum>j\<leftarrow>py_range L. cell lattice i j))"
    unfolding shift_sum_def by (rule sum_list_cong) (rule inner)
  then show ?thesis
    by (simp add: total_spin_def of_int_sum_list comp_def)
qed

lemma column_pair_sum_zero:
  assumes "valid_lattice L lattice" and "in_range L col_idx"
  shows "column_pair_sum lattice L col_idx 0 = real_of_int L"
proof -
  have one: "real_of_int (cell lattice i col_idx * cell lattice ((i + 0) mod L) col_idx) = 1"
    if "i \<in> set (py_range L)" for i
  proof -
    from that have i: "in_range L i"
      by (rule py_range_in_range)
    from cell_is_spin [OF assms(1) i assms(2)]
    have "cell lattice i col_idx * cell lattice i col_idx = 1"
      by (auto simp: is_spin_def)
    then have "real_of_int (cell lattice i col_idx * cell lattice i col_idx) = 1"
      by (simp only: of_int_1)
    with i show ?thesis
      by (simp add: in_range_mod)
  qed
  have "column_pair_sum lattice L col_idx 0 = real (length (py_range L)) * 1"
    unfolding column_pair_sum_def by (rule sum_list_const_on) (rule one)
  moreover from assms(2) have "0 \<le> L"
    by (simp add: in_range_def)
  ultimately show ?thesis
    by (simp add: length_py_range)
qed

text \<open>The passes of the loop over r that come after r = 0 leave entry 0 alone.\<close>

lemma spin_stats_accumulate_later:
  assumes "\<forall>r \<in> set rs. 0 < r"
  shows "fst (foldl (spin_stats_accumulate lattice L) acc rs) ! 0 = fst acc ! 0 \<and>
         snd (foldl (spin_stats_accumulate lattice L) acc rs) ! 0 = snd acc ! 0 \<and>
         length (fst (foldl (spin_stats_accumulate lattice L) acc rs)) = length (fst acc) \<and>
         length (snd (foldl (spin_stats_accumulate lattice L) acc rs)) = length (snd acc)"
  using assms
proof (induction rs arbitrary: acc)
  case Nil
  show ?case by simp
next
  case (Cons r rs)
  from Cons.prems have r: "nat r \<noteq> 0" and rs: "\<forall>r \<in> set rs. 0 < r"
    by simp_all
  from r have "fst (spin_stats_accumulate lattice L acc r) ! 0 = fst acc ! 0"
    "snd (spin_stats_accumulate lattice L acc r) ! 0 = snd acc ! 0"
    "length (fst (spin_stats_accumulate lattice L acc r)) = length (fst acc)"
    "length (snd (spin_stats_accumulate lattice L acc r)) = length (snd acc)"
    by (simp_all add: spin_stats_accumulate_def split_beta Let_def)
  with Cons.IH [OF rs, of "spin_stats_accumulate lattice L acc r"] show ?case
    by simp
qed

lemma spin_stats_accumulate_first:
  assumes "0 \<le> max_r" and "sum_pair \<noteq> []" and "sum_shift \<noteq> []"
  shows "fst (foldl (spin_stats_accumulate lattice L) (sum_pair, sum_shift)
                (py_range (max_r + 1))) ! 0 =
           sum_pair ! 0 + pair_sum lattice L 0 / real_of_int (L * L) \<and>
         snd (foldl (spin_stats_accumulate lattice L) (sum_pair, sum_shift)
                (py_range (max_r + 1))) ! 0 =
           sum_shift ! 0 + shift_sum lattice L 0 / real_of_int (L * L) \<and>
         length (fst (foldl (spin_stats_accumulate lattice L) (sum_pair, sum_shift)
                (py_range (max_r + 1)))) = length sum_pair \<and>
         length (snd (foldl (spin_stats_accumulate lattice L) (sum_pair, sum_shift)
                (py_range (max_r + 1)))) = length sum_shift"
proof -
  from assms(1) have split: "py_range (max_r + 1) = 0 # map int [Suc 0..<nat (max_r + 1)]"
    by (simp add: py_range_Cons)
  have later: "\<forall>r \<in> set (map int [Suc 0..<nat (max_r + 1)]). 0 < r"
    by auto
  from assms(2,3) have first:
    "fst (spin_stats_accumulate lattice L (sum_pair, sum_shift) 0) ! 0 =
       sum_pair ! 0 + pair_sum lattice L 0 / real_of_int (L * L)"
    "snd (spin_stats_accumulate lattice L (sum_pair, sum_shift) 0) ! 0 =
       sum_shift ! 0 + shift_sum lattice L 0 / real_of_int (L * L)"
    "length (fst (spin_stats_accumulate lattice L (sum_pair, sum_shift) 0)) = length sum_pair"
    "length (snd (spin_stats_accumulate lattice L (sum_pair, sum_shift) 0)) = length sum_shift"
    by (simp_all add: spin_stats_accumulate_def Let_def del: of_int_mult)
  from spin_stats_accumulate_later [OF later,
      of lattice L "spin_stats_accumulate lattice L (sum_pair, sum_shift) 0"] first
  show ?thesis
    unfolding split by simp
qed

lemma column_accumulate_later:
  assumes "\<forall>r \<in> set rs. 0 < r"
  shows "foldl (column_accumulate lattice L col_idx) acc rs ! 0 = acc ! 0 \<and>
         length (foldl (column_accumulate lattice L col_idx) acc rs) = length acc"
  using assms
proof (induction rs arbitrary: acc)
  case Nil
  show ?case by simp
next
  case (Cons r rs)
  from Cons.prems have r: "nat r \<noteq> 0" and rs: "\<forall>r \<in> set rs. 0 < r"
    by simp_all
  from r have "column_accumulate lattice L col_idx acc r ! 0 = acc ! 0"
    "length (column_accumulate lattice L col_idx acc r) = length acc"
    by (simp_all add: column_accumulate_def)
  with Cons.IH [OF rs, of "column_accumulate lattice L col_idx acc r"] show ?case
    by simp
qed

lemma column_accumulate_first:
  assumes "0 \<le> max_r" and "corr_sum \<noteq> []"
  shows "foldl (column_accumulate lattice L col_idx) corr_sum (py_range (max_r + 1)) ! 0 =
           corr_sum ! 0 + column_pair_sum lattice L col_idx 0 / real_of_int L \<and>
         length (foldl (column_accumulate lattice L col_idx) corr_sum (py_range (max_r + 1))) =
           length corr_sum"
proof -
  from assms(1) have split: "py_range (max_r + 1) = 0 # map int [Suc 0..<nat (max_r + 1)]"
    by (simp add: py_range_Cons)
  have later: "\<forall>r \<in> set (map int [Suc 0..<nat (max_r + 1)]). 0 < r"
    by auto
  from assms(2) have first:
    "column_accumulate lattice L col_idx corr_sum 0 ! 0 =
       corr_sum ! 0 + column_pair_sum lattice L col_idx 0 / real_of_int L"
    "length (column_accumulate lattice L col_idx corr_sum 0) = length corr_sum"
    by (simp_all add: column_accumulate_def)
  from column_accumulate_later [OF later,
      of lattice L col_idx "column_accumulate lattice L col_idx corr_sum 0"] first
  show ?thesis
    unfolding split by simp
qed

lemma eq_sweeps_engine_state:
  assumes "0 \<le> L" and "engine_state L st"
  shows "engine_state L (for_range n (metropolis_step_nb beta J h) st)"
  by (rule for_range_invariant [where P = "engine_state L", OF assms(2)])
    (rule metropolis_step_nb_engine_state [OF assms(1)])

lemma spin_stats_step_ok:
  assumes "spin_stats_state L c st" and "0 < L"
  shows "\<exists>st'. spin_stats_step beta J h L st = Inr st' \<and> spin_stats_state L (Suc c) st'"
proof -
  obtain lattice g sum_m sum_pair sum_shift where
    st: "st = (lattice, g, sum_m, sum_pair, sum_shift)"
    by (cases st) auto
  from assms(1) st have e0: "engine_state L (lattice, g)"
    and ne: "sum_pair \<noteq> []" "sum_shift \<noteq> []"
    and at0: "sum_pair ! 0 = real c" "sum_shift ! 0 = sum_m"
    by (simp_all add: spin_stats_state_def)
  obtain lattice' g' where sweep: "metropolis_step_nb beta J h (lattice, g) = (lattice', g')"
    by (cases "metropolis_step_nb beta J h (lattice, g)")
  from assms(2) have L0: "0 \<le> L" and N: "L * L \<noteq> 0" and r: "0 \<le> L div 2"
    by simp_all
  from metropolis_step_nb_engine_state [OF L0 e0, of beta J h] sweep
  have e: "engine_state L (lattice', g')" by simp
  then have v: "valid_lattice L lattice'"
    by (simp add: engine_state_def)
  from N have "real_of_int (L * L) \<noteq> 0"
    by (simp only: of_int_eq_0_iff not_False_eq_True)
  with pair_sum_zero [OF v] have one: "pair_sum lattice' L 0 / real_of_int (L * L) = 1"
    by simp
  note acc = spin_stats_accumulate_first [OF r ne, of lattice' L]
  obtain sum_pair' sum_shift' where fold:
    "foldl (spin_stats_accumulate lattice' L) (sum_pair, sum_shift) (py_range (L div 2 + 1)) =
       (sum_pair', sum_shift')"
    by (cases "foldl (spin_stats_accumulate lattice' L) (sum_pair, sum_shift)
        (py_range (L div 2 + 1))")
  from acc fold one at0 have res:
    "sum_pair' ! 0 = real (Suc c)"
    "sum_shift' ! 0 = sum_m + real_of_int (total_spin lattice' L) / real_of_int (L * L)"
    "length sum_pair' = length sum_pair" "length sum_shift' = length sum_shift"
    by (simp_all add: shift_sum_zero del: of_int_mult)
  from res(3,4) ne have ne': "sum_pair' \<noteq> []" "sum_shift' \<noteq> []"
    by auto
  from N sweep fold have "spin_stats_step beta J h L (lattice, g, sum_m, sum_pair, sum_shift) =
      Inr (lattice', g', sum_m + real_of_int (total_spin lattice' L) / real_of_int (L * L),
           sum_pair', sum_shift')"
    by (simp add: spin_stats_step_def Let_def del: of_int_mult)
  with e res(1,2) ne' st show ?thesis
    by (simp add: spin_stats_state_def)
qed

lemma spin_stats_loop:
  assumes "engine_state L (lattice, g)" and "0 < L"
  shows "\<exists>st'.
           for_range_err n (spin_stats_step beta J h L)
             (lattice, g, 0, replicate (nat (L div 2 + 1)) 0, replicate (nat (L div 2 + 1)) 0) =
             Inr st' \<and>
           spin_stats_state L n st'"
proof -
  from assms(2) have "0 < nat (L div 2 + 1)" by simp
  with assms(1) have "spin_stats_state L 0 (lattice, g, 0, replicate (nat (L div 2 + 1)) 0,
      replicate (nat (L div 2 + 1)) 0)"
    by (simp add: spin_stats_state_def)
  from for_range_err_counting [where P = "spin_stats_state L" and n = n and c = 0
      and body = "spin_stats_step beta J h L", OF this spin_stats_step_ok [OF _ assms(2)]]
  show ?thesis by simp
qed

lemma measure_spin_stats_zero_separation:
  assumes "0 < L" and "T \<noteq> 0" and "0 < n_steps" and "uniform_tape g"
  shows "\<exists>m_avg corr g'.
           measure_spin_stats_explicit_nb L T h n_eq n_steps J g = Inr ((m_avg, corr), g') \<and>
           length corr = nat (L div 2 + 1) \<and> corr ! 0 = 1 - m_avg\<^sup>2"
proof -
  from assms(1) have L0: "0 \<le> L" by simp
  from init_lattice_nb_valid [OF L0, of g] assms(4)
  obtain lattice g1 where init: "init_lattice_nb L g = Inr (lattice, g1)"
    and "engine_state L (lattice, g1)"
    by (auto simp: engine_state_def)
  from eq_sweeps_engine_state [OF L0 this(2), of "nat n_eq" "1 / T" J h]
  obtain lattice2 g2 where
    eq: "for_range (nat n_eq) (metropolis_step_nb (1 / T) J h) (lattice, g1) = (lattice2, g2)"
    and e2: "engine_state L (lattice2, g2)"
    by (cases "for_range (nat n_eq) (metropolis_step_nb (1 / T) J h) (lattice, g1)") simp
  from spin_stats_loop [OF e2 assms(1), of "nat n_steps" "1 / T" J h]
  obtain st' where
    loop': "for_range_err (nat n_steps) (spin_stats_step (1 / T) J h L)
       (lattice2, g2, 0, replicate (nat (L div 2 + 1)) 0, replicate (nat (L div 2 + 1)) 0) =
       Inr st'"
    and st': "spin_stats_state L (nat n_steps) st'"
    by blast
  obtain lattice3 g3 sum_m sum_pair sum_shift where
    "st' = (lattice3, g3, sum_m, sum_pair, sum_shift)"
    by (cases st') auto
  with loop' st' have
    loop: "for_range_err (nat n_steps) (spin_stats_step (1 / T) J h L)
       (lattice2, g2, 0, replicate (nat (L div 2 + 1)) 0, replicate (nat (L div 2 + 1)) 0) =
       Inr (lattice3, g3, sum_m, sum_pair, sum_shift)"
    and acc: "sum_pair ! 0 = real (nat n_steps)" "sum_shift ! 0 = sum_m"
    by (simp_all add: spin_stats_state_def)
  define m_avg where "m_avg = sum_m / real_of_int n_steps"
  define corr where "corr = map (\<lambda>r. sum_pair ! nat r / real_of_int n_steps -
      m_avg * (sum_shift ! nat r / real_of_int n_steps)) (py_range (L div 2 + 1))"
  from assms(1) have "py_range (L div 2 + 1) = 0 # map int [Suc 0..<nat (L div 2 + 1)]"
    by (simp add: py_range_Cons)
  then have "corr ! 0 = sum_pair ! 0 / real_of_int n_steps -
      m_avg * (sum_shift ! 0 / real_of_int n_steps)"
    by (simp add: corr_def)
  with acc assms(3) have "corr ! 0 = 1 - m_avg\<^sup>2"
    by (simp add: m_avg_def power2_eq_square)
  moreover have "length corr = nat (L div 2 + 1)"
    by (simp add: corr_def length_py_range)
  moreover from assms(2,3) init eq loop
  have "measure_spin_stats_explicit_nb L T h n_eq n_steps J g = Inr ((m_avg, corr), g3)"
    by (simp add: measure_spin_stats_explicit_nb_def Let_def m_avg_def corr_def)
  ultimately show ?thesis
    by blast
qed

lemma column_step_ok:
  assumes "column_state L c st" and "0 < L" and "in_range L col_idx"
  shows "\<exists>st'. column_step beta J L col_idx st = Inr st' \<and> column_state L (Suc c) st'"
proof -
  obtain lattice g sum_m corr_sum where st: "st = (lattice, g, sum_m, corr_sum)"
    by (cases st) auto
  from assms(1) st have e0: "engine_state L (lattice, g)"
    and ne: "corr_sum \<noteq> []" and at0: "corr_sum ! 0 = real c"
    by (simp_all add: column_state_def)
  obtain lattice' g' where sweep: "metropolis_step_nb beta J 0 (lattice, g) = (lattice', g')"
    by (cases "metropolis_step_nb beta J 0 (lattice, g)")
  from assms(2) have L0: "0 \<le> L" and N: "L * L \<noteq> 0" and r: "0 \<le> L div 2"
    by simp_all
  from metropolis_step_nb_engine_state [OF L0 e0, of beta J 0] sweep
  have e: "engine_state L (lattice', g')" by simp
  then have v: "valid_lattice L lattice'"
    by (simp add: engine_state_def)
  from assms(2) column_pair_sum_zero [OF v assms(3)]
  have one: "column_pair_sum lattice' L col_idx 0 / real_of_int L = 1"
    by simp
  note acc = column_accumulate_first [OF r ne, of lattice' L col_idx]
  from acc one ne at0 have res:
    "foldl (column_accumulate lattice' L col_idx) corr_sum (py_range (L div 2 + 1)) ! 0 =
       real (Suc c)"
    "foldl (column_accumulate lattice' L col_idx) corr_sum (py_range (L div 2 + 1)) \<noteq> []"
    by auto
  from N sweep have "column_step beta J L col_idx (lattice, g, sum_m, corr_sum) =
      Inr (lattice', g', sum_m + real_of_int (total_sum lattice') / real_of_int (L * L),
           foldl (column_accumulate lattice' L col_idx) corr_sum (py_range (L div 2 + 1)))"
    by (simp add: column_step_def Let_def del: of_int_mult)
  with e res st show ?thesis
    by (simp add: column_state_def)
qed

lemma column_loop:
  assumes "engine_state L (lattice, g)" and "0 < L" and "in_range L col_idx"
  shows "\<exists>st'.
           for_range_err n (column_step beta J L col_idx)
             (lattice, g, 0, replicate (nat (L div 2 + 1)) 0) = Inr st' \<and>
           column_state L n st'"
proof -
  from assms(2) have "0 < nat (L div 2 + 1)" by simp
  with assms(1) have "column_state L 0 (lattice, g, 0, replicate (nat (L div 2 + 1)) 0)"
    by (simp add: column_state_def)
  from for_range_err_counting [where P = "column_state L" and n = n and c = 0
      and body = "column_step beta J L col_idx", OF this column_step_ok [OF _ assms(2,3)]]
  show ?thesis by simp
qed

lemma measure_column_zero_separation:
  assumes "0 < L" and "T \<noteq> 0" and "0 < n_steps" and "uniform_tape g"
    and "in_range L col_idx"
  shows "\<exists>m_avg corr g'.
           measure_column_correlation_nb L T col_idx n_eq n_steps J g =
             Inr ((m_avg, corr), g') \<and>
           corr \<noteq> [] \<and> corr ! 0 = 1 - m_avg\<^sup>2"
proof -
  from assms(1) have L0: "0 \<le> L" by simp
  from init_lattice_nb_valid [OF L0, of g] assms(4)
  obtain lattice g1 where init: "init_lattice_nb L g = Inr (lattice, g1)"
    and "engine_state L (lattice, g1)"
    by (auto simp: engine_state_def)
  from eq_sweeps_engine_state [OF L0 this(2), of "nat n_eq" "1 / T" J 0]
  obtain lattice2 g2 where
    eq: "for_range (nat n_eq) (metropolis_step_nb (1 / T) J 0) (lattice, g1) = (lattice2, g2)"
    and e2: "engine_state L (lattice2, g2)"
    by (cases "for_range (nat n_eq) (metropolis_step_nb (1 / T) J 0) (lattice, g1)") simp
  from column_loop [OF e2 assms(1,5), of "nat n_steps" "1 / T" J]
  obtain st' where
    loop': "for_range_err (nat n_steps) (column_step (1 / T) J L col_idx)
       (lattice2, g2, 0, replicate (nat (L div 2 + 1)) 0) = Inr st'"
    and st': "column_state L (nat n_steps) st'"
    by blast
  obtain lattice3 g3 sum_m corr_sum where "st' = (lattice3, g3, sum_m, corr_sum)"
    by (cases st') auto
  with loop' st' have
    loop: "for_range_err (nat n_steps) (column_step (1 / T) J L col_idx)
       (lattice2, g2, 0, replicate (nat (L div 2 + 1)) 0) = Inr (lattice3, g3, sum_m, corr_sum)"
    and acc: "corr_sum \<noteq> []" "corr_sum ! 0 = real (nat n_steps)"
    by (simp_all add: column_state_def)
  define m_avg where "m_avg = sum_m / real_of_int n_steps"
  define corr where "corr = map (\<lambda>x. x / real_of_int n_steps - m_avg\<^sup>2) corr_sum"
  from acc(1) have "corr ! 0 = corr_sum ! 0 / real_of_int n_steps - m_avg\<^sup>2"
    by (simp add: corr_def)
  with acc assms(3) have "corr ! 0 = 1 - m_avg\<^sup>2"
    by simp
  moreover from acc(1) have "corr \<noteq> []"
    by (simp add: corr_def)
  moreover from assms(2,3) init eq loop
  have "measure_column_correlation_nb L T col_idx n_eq n_steps J g = Inr ((m_avg, corr), g3)"
    by (simp add: measure_column_correlation_nb_def Let_def m_avg_def corr_def)
  ultimately show ?thesis
    by blast
qed

lemma measure_spin_stats_zeros_1:
  "measure_spin_stats_explicit_nb 1 1 0 0 1 1 (sconst 0) = Inr ((1, [0]), sconst 0)"
proof -
  have "py_range 1 = [0]"
    by (simp add: py_range_def)
  then show ?thesis
    by (simp add: measure_spin_stats_explicit_nb_def init_lattice_nb_zeros_1
        metropolis_step_nb_zeros_1 spin_stats_step_def spin_stats_accumulate_def total_spin_def
        pair_sum_def shift_sum_def cell_def Let_def)
qed

lemma measure_column_zeros_1:
  "measure_column_correlation_nb 1 1 0 0 1 1 (sconst 0) = Inr ((1, [0]), sconst 0)"
proof -
  have "py_range 1 = [0]"
    by (simp add: py_range_def)
  then show ?thesis
    by (simp add: measure_column_correlation_nb_def init_lattice_nb_zeros_1
        metropolis_step_nb_zeros_1 column_step_def column_accumulate_def total_sum_def
        column_pair_sum_def cell_def Let_def)
qed

text \<open>
  C8, as the program has it. For a run with n_steps > 0 (on a lattice of size L > 0, at
  T other than 0, and for the column correlator an in-range column), the correlation
  returned at separation zero is 1 - m_avg^2 in both correlators, m_avg being the
  average magnetization returned with it: the mean-square spin, which is 1, less the
  squared mean that both correlators subtract.
\<close>

theorem correlation_at_zero_separation:
  assumes "0 < L" and "T \<noteq> 0" and "0 < n_steps" and "uniform_tape g"
    and "in_range L col_idx"
  shows "(\<exists>m_avg corr g'.
            measure_spin_stats_explicit_nb L T h n_eq n_steps J g = Inr ((m_avg, corr), g') \<and>
            length corr = nat (L div 2 + 1) \<and> corr ! 0 = 1 - m_avg\<^sup>2) \<and>
         (\<exists>m_avg corr g'.
            measure_column_correlation_nb L T col_idx n_eq n_steps J g =
              Inr ((m_avg, corr), g') \<and>
            corr \<noteq> [] \<and> corr ! 0 = 1 - m_avg\<^sup>2)"
  using measure_spin_stats_zero_separation [OF assms(1-4)]
    measure_column_zero_separation [OF assms]
  by blast

theorem correlation_at_zero_separation_witness:
  "0 < (1::int) \<and> (1::real) \<noteq> 0 \<and> uniform_tape (sconst 0) \<and> in_range 1 0 \<and>
   measure_spin_stats_explicit_nb 1 1 0 0 1 1 (sconst 0) = Inr ((1, [0]), sconst 0) \<and>
   measure_column_correlation_nb 1 1 0 0 1 1 (sconst 0) = Inr ((1, [0]), sconst 0) \<and>
   [0::real] ! 0 = 1 - 1\<^sup>2"
proof -
  have "0 < (1::int)" and "(1::real) \<noteq> 0" and "0 < (1::int)"
    by simp_all
  moreover have r: "in_range 1 0"
    by (simp add: in_range_def)
  ultimately have "\<exists>m_avg corr g'.
      measure_spin_stats_explicit_nb 1 1 0 0 1 1 (sconst 0) = Inr ((m_avg, corr), g') \<and>
      length corr = nat (1 div 2 + 1) \<and> corr ! 0 = 1 - m_avg\<^sup>2"
    using correlation_at_zero_separation [of 1 1 1 "sconst 0" 0 0 0 1] uniform_tape_zeros
    by blast
  then show ?thesis
    using r by (simp add: uniform_tape_zeros measure_spin_stats_zeros_1 measure_column_zeros_1)
qed

text \<open>
  C8 as the specification words it has the correlation at separation zero equal to 1.
  On the one-site lattice both correlators return the average magnetization 1 and the
  correlation 0.
\<close>

theorem correlation_at_zero_counterexample:
  "measure_spin_stats_explicit_nb 1 1 0 0 1 1 (sconst 0) = Inr ((1, [0]), sconst 0) \<and>
   measure_column_correlation_nb 1 1 0 0 1 1 (sconst 0) = Inr ((1, [0]), sconst 0) \<and>
   [0::real] ! 0 \<noteq> 1"
  by (simp add: measure_spin_stats_zeros_1 measure_column_zeros_1)

section \<open>The WHAM solver\<close>

lemma wham_f_Suc:
  "wham_f H Mgrid V beta f (Suc k) =
     wham_f H Mgrid V beta (snd (wham_iteration H Mgrid V beta f)) k"
  by (simp only: wham_f_def funpow_Suc_right comp_def)

text \<open>
  The loop over \<open>range(n + 1)\<close> stops at the first pass that meets the convergence
  test and at its last pass otherwise; it hands on what that pass computes.
\<close>

lemma wham_loop_stops:
  "\<exists>k \<le> n.
     wham_loop n H Mgrid V beta f = wham_iteration H Mgrid V beta (wham_f H Mgrid V beta f k) \<and>
     (\<forall>i < k. \<not> converged_at H Mgrid V beta f i) \<and>
     (k = n \<or> converged_at H Mgrid V beta f k) \<and>
     wham_passes n H Mgrid V beta f = Suc k"
proof (induction n arbitrary: f)
  case 0
  show ?case
    by (simp add: wham_f_def)
next
  case (Suc n)
  obtain P f_new where it: "wham_iteration H Mgrid V beta f = (P, f_new)"
    by (cases "wham_iteration H Mgrid V beta f")
  show ?case
  proof (cases "converged f_new f")
    case True
    with it have "wham_loop (Suc n) H Mgrid V beta f =
        wham_iteration H Mgrid V beta (wham_f H Mgrid V beta f 0)"
      and "converged_at H Mgrid V beta f 0"
      and "wham_passes (Suc n) H Mgrid V beta f = Suc 0"
      by (simp_all add: wham_f_def converged_at_def)
    then show ?thesis
      by blast
  next
    case False
    from Suc.IH [of f_new] obtain k where k: "k \<le> n"
      "wham_loop n H Mgrid V beta f_new =
         wham_iteration H Mgrid V beta (wham_f H Mgrid V beta f_new k)"
      "\<forall>i < k. \<not> converged_at H Mgrid V beta f_new i"
      "k = n \<or> converged_at H Mgrid V beta f_new k"
      "wham_passes n H Mgrid V beta f_new = Suc k"
      by blast
    from it have shift: "wham_f H Mgrid V beta f (Suc i) = wham_f H Mgrid V beta f_new i" for i
      by (simp add: wham_f_Suc)
    then have conv: "converged_at H Mgrid V beta f (Suc i) = converged_at H Mgrid V beta f_new i"
      for i
      by (simp add: converged_at_def)
    from False it have first: "\<not> converged_at H Mgrid V beta f 0"
      by (simp add: converged_at_def wham_f_def)
    have "\<forall>i < Suc k. \<not> converged_at H Mgrid V beta f i"
    proof (intro allI impI)
      fix i
      assume "i < Suc k"
      with first k(3) conv show "\<not> converged_at H Mgrid V beta f i"
        by (cases i) simp_all
    qed
    moreover from False it k(2) have "wham_loop (Suc n) H Mgrid V beta f =
        wham_iteration H Mgrid V beta (wham_f H Mgrid V beta f (Suc k))"
      by (simp add: shift)
    moreover from k(4) have "Suc k = Suc n \<or> converged_at H Mgrid V beta f (Suc k)"
      by (simp add: conv)
    moreover from k(1) have "Suc k \<le> Suc n"
      by simp
    moreover from False it k(5) have "wham_passes (Suc n) H Mgrid V beta f = Suc (Suc k)"
      by simp
    ultimately show ?thesis
      by blast
  qed
qed

lemma wham_us_result:
  assumes "stackable hist_list" and "list_ex is_FloatArray hist_list"
  shows "wham_us hist_list Mgrid k_bias M0_list beta =
     Inr [PyArray (fst (wham_loop 4999 (map values_of hist_list) Mgrid
                      (bias_potential k_bias Mgrid M0_list) beta
                      (replicate (length hist_list) (Fin 0)))),
          PyArray (map (\<lambda>p. f_div (f_neg (f_log (f_add p (Fin wham_eps)))) (Fin beta))
                 (fst (wham_loop 4999 (map values_of hist_list) Mgrid
                         (bias_potential k_bias Mgrid M0_list) beta
                         (replicate (length hist_list) (Fin 0)))))]"
  using assms by (simp add: wham_us_def Let_def split_beta)

subsection \<open>A window that has counted nothing\<close>

text \<open>
  One histogram of two empty bins on the grid 0, 1, without bias: the normalisation
  divides zero by zero, and from the first pass on P and f are NaN, which no comparison
  with the tolerance accepts.
\<close>

lemma upt_2: "[0..<2] = [0, Suc 0]"
  by (simp add: upt_rec)

lemma wham_iteration_empty_first:
  "wham_iteration [[0, 0]] [0, 1] [[0, 0]] 1 [Fin 0] = ([NaN, NaN], [NaN])"
  by (simp add: wham_iteration_def trapezoid_def np_sum_def f_sub_def wham_eps_def Let_def upt_2)

lemma wham_iteration_empty_nan:
  "wham_iteration [[0, 0]] [0, 1] [[0, 0]] 1 [NaN] = ([NaN, NaN], [NaN])"
  by (simp add: wham_iteration_def trapezoid_def np_sum_def f_sub_def wham_eps_def Let_def upt_2)

lemma not_converged_nan: "\<not> converged [NaN] [a]"
  by (cases a) (simp_all add: converged_def np_max_def f_sub_def)

lemma wham_loop_empty_nan:
  "wham_loop n [[0, 0]] [0, 1] [[0, 0]] 1 [NaN] = ([NaN, NaN], [NaN])"
  by (induction n) (simp_all add: wham_iteration_empty_nan not_converged_nan)

lemma wham_passes_empty_nan:
  "wham_passes n [[0, 0]] [0, 1] [[0, 0]] 1 [NaN] = Suc n"
  by (induction n) (simp_all add: wham_iteration_empty_nan not_converged_nan)

lemma wham_loop_empty:
  "wham_loop 4999 [[0, 0]] [0, 1] [[0, 0]] 1 [Fin 0] = ([NaN, NaN], [NaN])"
proof -
  have "(4999::nat) = Suc 4998"
    by simp
  then show ?thesis
    by (simp only: wham_loop.simps wham_iteration_empty_first Let_def prod.case
        not_converged_nan if_False wham_loop_empty_nan)
qed

lemma wham_passes_empty:
  "wham_passes 4999 [[0, 0]] [0, 1] [[0, 0]] 1 [Fin 0] = 5000"
proof -
  have "(4999::nat) = Suc 4998"
    by simp
  then have "wham_passes 4999 [[0, 0]] [0, 1] [[0, 0]] 1 [Fin 0] = Suc (Suc 4998)"
    by (simp only: wham_passes.simps wham_iteration_empty_first Let_def prod.case
        not_converged_nan if_False wham_passes_empty_nan)
  then show ?thesis
    by simp
qed

lemma wham_f_empty_nan: "wham_f [[0, 0]] [0, 1] [[0, 0]] 1 [NaN] k = [NaN]"
  by (induction k) (simp_all add: wham_f_def wham_iteration_empty_nan)

lemma wham_f_empty:
  "wham_f [[0, 0]] [0, 1] [[0, 0]] 1 [Fin 0] (Suc k) = [NaN]"
  by (simp add: wham_f_Suc wham_iteration_empty_first wham_f_empty_nan)

lemma not_converged_at_empty:
  "\<not> converged_at [[0, 0]] [0, 1] [[0, 0]] 1 [Fin 0] k"
proof (cases k)
  case 0
  then show ?thesis
    by (simp add: converged_at_def wham_f_def wham_iteration_empty_first not_converged_nan)
next
  case (Suc j)
  then show ?thesis
    by (simp add: converged_at_def wham_f_empty wham_iteration_empty_nan not_converged_nan)
qed

lemma bias_potential_free: "bias_potential 0 [0, 1] [0] = [[0, 0]]"
  by (simp add: bias_potential_def)

lemma wham_us_empty:
  "wham_us [FloatArray [0, 0]] [0, 1] 0 [0] 1 = Inr [PyArray [NaN, NaN], PyArray [NaN, NaN]]"
  by (simp add: wham_us_def stackable_def bias_potential_free wham_loop_empty)

subsection \<open>A flat histogram\<close>

text \<open>One histogram of one count in each of two bins: the first pass converges.\<close>

lemma wham_iteration_flat:
  "wham_iteration [[1, 1]] [0, 1] [[0, 0]] 1 [Fin 0] =
     ([Fin 1, Fin 1], [Fin (- ln (1 + wham_eps))])"
proof -
  have "(1::real) / 10 ^ 30 < 2"
    by simp
  moreover have "(0::real) < 1 + 1 / 10 ^ 30"
    by simp
  ultimately show ?thesis
    by (simp add: wham_iteration_def trapezoid_def np_sum_def f_sub_def wham_eps_def Let_def
        upt_2)
qed

lemma converged_flat: "converged [Fin (- ln (1 + wham_eps))] [Fin 0]"
proof -
  have "0 \<le> wham_eps"
    by (simp add: wham_eps_def)
  then have "0 \<le> ln (1 + wham_eps)" and "ln (1 + wham_eps) \<le> wham_eps"
    by (simp_all add: ln_add_one_self_le_self)
  moreover have "wham_eps < 1 / 10 ^ 6"
    by (simp add: wham_eps_def)
  ultimately show ?thesis
    by (simp add: converged_def np_max_def f_sub_def)
qed

lemma wham_passes_flat: "wham_passes 4999 [[1, 1]] [0, 1] [[0, 0]] 1 [Fin 0] = 1"
proof -
  have "(4999::nat) = Suc 4998"
    by simp
  then show ?thesis
    by (simp only: wham_passes.simps wham_iteration_flat Let_def prod.case converged_flat
        if_True)
qed

subsection \<open>What the solver returns\<close>

text \<open>
  C7, as the program has it. A list of histograms that \<open>np.vstack\<close> cannot stack, the
  empty list above all, raises a ValueError before the first pass. On histograms of one
  length, with a grid of as many points as a histogram has bins and as many targets as
  histograms: histograms of integers raise a TypeError in the first pass; on histograms of
  floats \<open>wham_us\<close> makes at most 5000 passes of its fixed-point iteration, the last of
  them the first pass at which the largest absolute change of the f_k is below 1e-6, or
  the 5000th pass if there is none, and raises nothing. What it returns is the pair
  (P, F) of that last pass, F being -log(P + eps) / beta, and nothing else: no
  indicator of convergence.
\<close>

theorem wham_us_bounded_iteration:
  "(\<not> stackable hist_list \<longrightarrow>
      wham_us hist_list Mgrid k_bias M0_list beta = Inl ValueError) \<and>
   (stackable hist_list \<and> length Mgrid = length (values_of (hd hist_list)) \<and>
    length M0_list = length hist_list \<and> \<not> list_ex is_FloatArray hist_list \<longrightarrow>
      wham_us hist_list Mgrid k_bias M0_list beta = Inl TypeError) \<and>
   (stackable hist_list \<and> length Mgrid = length (values_of (hd hist_list)) \<and>
    length M0_list = length hist_list \<and> list_ex is_FloatArray hist_list \<longrightarrow>
      (\<exists>k < 5000.
         wham_us hist_list Mgrid k_bias M0_list beta =
           Inr [PyArray (fst (wham_iteration (map values_of hist_list) Mgrid
                                (bias_potential k_bias Mgrid M0_list) beta
                                (wham_f (map values_of hist_list) Mgrid
                                   (bias_potential k_bias Mgrid M0_list) beta
                                   (replicate (length hist_list) (Fin 0)) k))),
                PyArray (map (\<lambda>p. f_div (f_neg (f_log (f_add p (Fin wham_eps)))) (Fin beta))
                           (fst (wham_iteration (map values_of hist_list) Mgrid
                                   (bias_potential k_bias Mgrid M0_list) beta
                                   (wham_f (map values_of hist_list) Mgrid
                                      (bias_potential k_bias Mgrid M0_list) beta
                                      (replicate (length hist_list) (Fin 0)) k))))] \<and>
         (\<forall>i < k. \<not> converged_at (map values_of hist_list) Mgrid
                       (bias_potential k_bias Mgrid M0_list) beta
                       (replicate (length hist_list) (Fin 0)) i) \<and>
         (k = 4999 \<or> converged_at (map values_of hist_list) Mgrid
                       (bias_potential k_bias Mgrid M0_list) beta
                       (replicate (length hist_list) (Fin 0)) k) \<and>
         wham_passes 4999 (map values_of hist_list) Mgrid
           (bias_potential k_bias Mgrid M0_list) beta
           (replicate (length hist_list) (Fin 0)) = Suc k))"
proof (intro conjI impI)
  assume "\<not> stackable hist_list"
  then show "wham_us hist_list Mgrid k_bias M0_list beta = Inl ValueError"
    by (simp add: wham_us_def)
next
  assume "stackable hist_list \<and> length Mgrid = length (values_of (hd hist_list)) \<and>
    length M0_list = length hist_list \<and> \<not> list_ex is_FloatArray hist_list"
  then show "wham_us hist_list Mgrid k_bias M0_list beta = Inl TypeError"
    by (simp add: wham_us_def)
next
  let ?H = "map values_of hist_list"
  let ?V = "bias_potential k_bias Mgrid M0_list"
  let ?f = "replicate (length hist_list) (Fin 0)"
  assume "stackable hist_list \<and> length Mgrid = length (values_of (hd hist_list)) \<and>
    length M0_list = length hist_list \<and> list_ex is_FloatArray hist_list"
  then have ok: "stackable hist_list" "list_ex is_FloatArray hist_list"
    by simp_all
  from wham_loop_stops [of 4999 ?H Mgrid ?V beta ?f]
  obtain k where k: "k \<le> 4999"
    "wham_loop 4999 ?H Mgrid ?V beta ?f =
       wham_iteration ?H Mgrid ?V beta (wham_f ?H Mgrid ?V beta ?f k)"
    "\<forall>i < k. \<not> converged_at ?H Mgrid ?V beta ?f i"
    "k = 4999 \<or> converged_at ?H Mgrid ?V beta ?f k"
    "wham_passes 4999 ?H Mgrid ?V beta ?f = Suc k"
    by blast
  from k(1) have "k < 5000" by simp
  moreover note k(3,4,5)
    wham_us_result [OF ok, of Mgrid k_bias M0_list beta, unfolded k(2)]
  ultimately show "\<exists>k < 5000.
         wham_us hist_list Mgrid k_bias M0_list beta =
           Inr [PyArray (fst (wham_iteration ?H Mgrid ?V beta (wham_f ?H Mgrid ?V beta ?f k))),
                PyArray (map (\<lambda>p. f_div (f_neg (f_log (f_add p (Fin wham_eps)))) (Fin beta))
                           (fst (wham_iteration ?H Mgrid ?V beta
                                   (wham_f ?H Mgrid ?V beta ?f k))))] \<and>
         (\<forall>i < k. \<not> converged_at ?H Mgrid ?V beta ?f i) \<and>
         (k = 4999 \<or> converged_at ?H Mgrid ?V beta ?f k) \<and>
         wham_passes 4999 ?H Mgrid ?V beta ?f = Suc k"
    by blast
qed

text \<open>
  The theorem at four inputs: the empty list of histograms; a histogram of integers; the
  window that has counted nothing, where all 5000 passes are made and the arrays returned
  hold NaN; the flat histogram, where the first pass is the last.
\<close>

theorem wham_us_bounded_iteration_witness:
  "wham_us [] [0, 1] 0 [] 1 = Inl ValueError \<and>
   wham_us [IntArray [0, 0]] [0, 1] 0 [0] 1 = Inl TypeError \<and>
   wham_us [FloatArray [0, 0]] [0, 1] 0 [0] 1 =
     Inr [PyArray (fst (wham_iteration [[0, 0]] [0, 1] [[0, 0]] 1
                          (wham_f [[0, 0]] [0, 1] [[0, 0]] 1 [Fin 0] 4999))),
          PyArray (map (\<lambda>p. f_div (f_neg (f_log (f_add p (Fin wham_eps)))) (Fin 1))
                     (fst (wham_iteration [[0, 0]] [0, 1] [[0, 0]] 1
                             (wham_f [[0, 0]] [0, 1] [[0, 0]] 1 [Fin 0] 4999))))] \<and>
   wham_passes 4999 [[0, 0]] [0, 1] [[0, 0]] 1 [Fin 0] = Suc 4999 \<and>
   converged_at [[1, 1]] [0, 1] [[0, 0]] 1 [Fin 0] 0"
proof -
  have "\<not> stackable []"
    by (simp add: stackable_def)
  with wham_us_bounded_iteration [of "[]" "[0, 1]" 0 "[]" 1]
  have a: "wham_us [] [0, 1] 0 [] 1 = Inl ValueError"
    by blast
  have "stackable [IntArray [0, 0]] \<and> length [0, 1 :: real] = length (values_of (hd [IntArray [0, 0]])) \<and>
    length [0 :: real] = length [IntArray [0, 0]] \<and> \<not> list_ex is_FloatArray [IntArray [0, 0]]"
    by (simp add: stackable_def)
  with wham_us_bounded_iteration [of "[IntArray [0, 0]]" "[0, 1]" 0 "[0]" 1]
  have b: "wham_us [IntArray [0, 0]] [0, 1] 0 [0] 1 = Inl TypeError"
    by blast
  have "stackable [FloatArray [0, 0]] \<and>
    length [0, 1 :: real] = length (values_of (hd [FloatArray [0, 0]])) \<and>
    length [0 :: real] = length [FloatArray [0, 0]] \<and> list_ex is_FloatArray [FloatArray [0, 0]]"
    by (simp add: stackable_def)
  with wham_us_bounded_iteration [of "[FloatArray [0, 0]]" "[0, 1]" 0 "[0]" 1]
  obtain k where k: "wham_us [FloatArray [0, 0]] [0, 1] 0 [0] 1 =
       Inr [PyArray (fst (wham_iteration [[0, 0]] [0, 1] [[0, 0]] 1
                            (wham_f [[0, 0]] [0, 1] [[0, 0]] 1 [Fin 0] k))),
            PyArray (map (\<lambda>p. f_div (f_neg (f_log (f_add p (Fin wham_eps)))) (Fin 1))
                       (fst (wham_iteration [[0, 0]] [0, 1] [[0, 0]] 1
                               (wham_f [[0, 0]] [0, 1] [[0, 0]] 1 [Fin 0] k))))]"
    "k = 4999 \<or> converged_at [[0, 0]] [0, 1] [[0, 0]] 1 [Fin 0] k"
    "wham_passes 4999 [[0, 0]] [0, 1] [[0, 0]] 1 [Fin 0] = Suc k"
    by (auto simp add: bias_potential_free)
  from k(2) have k4999: "k = 4999"
    by (simp add: not_converged_at_empty)
  have "stackable [FloatArray [1, 1]] \<and>
    length [0, 1 :: real] = length (values_of (hd [FloatArray [1, 1]])) \<and>
    length [0 :: real] = length [FloatArray [1, 1]] \<and> list_ex is_FloatArray [FloatArray [1, 1]]"
    by (simp add: stackable_def)
  with wham_us_bounded_iteration [of "[FloatArray [1, 1]]" "[0, 1]" 0 "[0]" 1]
  obtain j where j: "j = 4999 \<or> converged_at [[1, 1]] [0, 1] [[0, 0]] 1 [Fin 0] j"
    "wham_passes 4999 [[1, 1]] [0, 1] [[0, 0]] 1 [Fin 0] = Suc j"
    by (auto simp add: bias_potential_free)
  from j(2) have "j = 0"
    by (simp add: wham_passes_flat)
  with j(1) have d: "converged_at [[1, 1]] [0, 1] [[0, 0]] 1 [Fin 0] 0"
    by simp
  from a b k(1,3) d show ?thesis
    unfolding k4999 by blast
qed

text \<open>
  C7 as the specification words it has the last iterate returned together with a
  convergence indicator when the iteration does not converge. For the window that has
  counted nothing the iteration does not converge: all 5000 passes are made and the last
  one does not meet the test. The value returned is the pair of the distribution and the
  free energy, both NaN throughout, and nothing else.
\<close>

theorem wham_us_indicator_counterexample:
  "wham_us [FloatArray [0, 0]] [0, 1] 0 [0] 1 = Inr [PyArray [NaN, NaN], PyArray [NaN, NaN]] \<and>
   wham_passes 4999 [[0, 0]] [0, 1] (bias_potential 0 [0, 1] [0]) 1 [Fin 0] = 5000 \<and>
   \<not> converged_at [[0, 0]] [0, 1] (bias_potential 0 [0, 1] [0]) 1 [Fin 0] 4999 \<and>
   \<not> list_ex is_PyBool [PyArray [NaN, NaN], PyArray [NaN, NaN]]"
  by (simp add: wham_us_empty wham_passes_empty bias_potential_free not_converged_at_empty)
section \<open>The local energy model\<close>

text \<open>
  C2. On a lattice of spins and at an in-range site (i, j), \<open>delta_energy_nb\<close> returns
  2 s (J nb + h), where s is the spin at the site and nb the sum of its four nearest
  neighbours on the torus.
\<close>

theorem delta_energy_nb_formula:
  assumes "valid_lattice L lattice" and "in_range L i" and "in_range L j"
  shows "delta_energy_nb lattice i j J h =
           2 * real_of_int (cell lattice i j) *
             (J * real_of_int (neighbor_sum lattice i j) + h)"
proof -
  note L = valid_lattice_shape0 [OF assms(1)]
  show ?thesis
    by (simp add: delta_energy_nb_def neighbor_sum_def Let_def L
        mod_torus_next [OF assms(2)] mod_torus_prev [OF assms(2)]
        mod_torus_next [OF assms(3)] mod_torus_prev [OF assms(3)])
qed

theorem delta_energy_nb_formula_witness:
  "valid_lattice 2 [[1, - 1], [- 1, 1]] \<and> in_range 2 0 \<and> in_range 2 1 \<and>
   delta_energy_nb [[1, - 1], [- 1, 1]] 0 1 1 (1 / 2) = - 9"
proof -
  have v: "valid_lattice 2 [[1, - 1], [- 1, 1]]"
    by (simp add: valid_lattice_def shape0_def is_spin_def)
  have i: "in_range 2 0" and j: "in_range 2 1"
    by (simp_all add: in_range_def)
  have "neighbor_sum [[1, - 1], [- 1, 1]] 0 1 = 4"
    by (simp add: neighbor_sum_def shape0_def cell_def torus_next_def torus_prev_def)
  moreover have "cell [[1, - 1], [- 1, 1]] 0 1 = - 1"
    by (simp add: cell_def)
  ultimately show ?thesis
    using v i j delta_energy_nb_formula [OF v i j, of 1 "1 / 2"] by simp
qed

text \<open>
  C3. On a lattice of spins, at an in-range site and for any tracked magnetization M,
  \<open>delta_E_and_dM\<close> returns the magnetization change -2 s and the energy change
  2 s J nb + k_bias ((M - 2 s - M0)^2 - (M - M0)^2) / 2. No field term enters: the
  interaction part is what \<open>delta_energy_nb\<close> gives at h = 0.
\<close>

theorem delta_E_and_dM_formula:
  assumes "valid_lattice L lattice" and "in_range L i" and "in_range L j"
  shows "delta_E_and_dM lattice i j J k_bias M0 M =
           (2 * real_of_int (cell lattice i j) * J * real_of_int (neighbor_sum lattice i j) +
              1 / 2 * k_bias *
                ((real_of_int (M + - 2 * cell lattice i j) - M0)\<^sup>2 - (real_of_int M - M0)\<^sup>2),
            - 2 * cell lattice i j) \<and>
         fst (delta_E_and_dM lattice i j J k_bias M0 M) =
           delta_energy_nb lattice i j J 0 +
             1 / 2 * k_bias *
               ((real_of_int (M + snd (delta_E_and_dM lattice i j J k_bias M0 M)) - M0)\<^sup>2 -
                (real_of_int M - M0)\<^sup>2)"
proof -
  note L = valid_lattice_shape0 [OF assms(1)]
  show ?thesis
    by (simp add: delta_E_and_dM_def delta_energy_nb_def neighbor_sum_def Let_def L
        mod_torus_next [OF assms(2)] mod_torus_prev [OF assms(2)]
        mod_torus_next [OF assms(3)] mod_torus_prev [OF assms(3)])
qed

theorem delta_E_and_dM_formula_witness:
  "valid_lattice 2 [[1, - 1], [- 1, 1]] \<and> in_range 2 0 \<and> in_range 2 1 \<and>
   delta_E_and_dM [[1, - 1], [- 1, 1]] 0 1 1 2 3 0 = (- 16, 2)"
proof -
  have v: "valid_lattice 2 [[1, - 1], [- 1, 1]]"
    by (simp add: valid_lattice_def shape0_def is_spin_def)
  have i: "in_range 2 0" and j: "in_range 2 1"
    by (simp_all add: in_range_def)
  have "neighbor_sum [[1, - 1], [- 1, 1]] 0 1 = 4"
    by (simp add: neighbor_sum_def shape0_def cell_def torus_next_def torus_prev_def)
  moreover have "cell [[1, - 1], [- 1, 1]] 0 1 = - 1"
    by (simp add: cell_def)
  ultimately show ?thesis
    using v i j delta_E_and_dM_formula [OF v i j, of 1 2 3 0] by simp
qed

text \<open>
  C10. Evaluating the energy change of a proposed flip leaves the lattice as it was:
  run over the array as a store, \<open>delta_energy_nb\<close> and \<open>delta_E_and_dM\<close> return
  their values and the store they were given. A trial of either engine hands back the
  lattice unchanged unless it accepts the flip, and then it has written the one cell.
\<close>

theorem delta_evaluation_frame:
  "run_state (delta_energy_nb_st i j J h) lattice = (delta_energy_nb lattice i j J h, lattice) \<and>
   run_state (delta_E_and_dM_st i j J k_bias M0 M) lattice =
     (delta_E_and_dM lattice i j J k_bias M0 M, lattice) \<and>
   fst (metropolis_trial beta J h (lattice, g)) \<in>
     {lattice, set_cell lattice (fst (randint 0 (shape0 lattice) g))
                 (fst (randint 0 (shape0 lattice) (stl g)))
                 (- cell lattice (fst (randint 0 (shape0 lattice) g))
                      (fst (randint 0 (shape0 lattice) (stl g))))} \<and>
   (case us_trial beta J k_bias M0 L (lattice, M, g) of
      Inl e \<Rightarrow> True
    | Inr (lattice', M', g') \<Rightarrow>
        lattice' \<in>
          {lattice, set_cell lattice (fst (randint 0 L g)) (fst (randint 0 L (stl g)))
                      (- cell lattice (fst (randint 0 L g)) (fst (randint 0 L (stl g))))})"
proof -
  have "run_state (delta_energy_nb_st i j J h) lattice = (delta_energy_nb lattice i j J h, lattice)"
    by (simp add: delta_energy_nb_st_def delta_energy_nb_def read_shape0_def read_cell_def Let_def)
  moreover have "run_state (delta_E_and_dM_st i j J k_bias M0 M) lattice =
      (delta_E_and_dM lattice i j J k_bias M0 M, lattice)"
    by (simp add: delta_E_and_dM_st_def delta_E_and_dM_def read_shape0_def read_cell_def Let_def)
  moreover have "fst (metropolis_trial beta J h (lattice, g)) \<in>
     {lattice, set_cell lattice (fst (randint 0 (shape0 lattice) g))
                 (fst (randint 0 (shape0 lattice) (stl g)))
                 (- cell lattice (fst (randint 0 (shape0 lattice) g))
                      (fst (randint 0 (shape0 lattice) (stl g))))}"
    by (simp add: metropolis_trial_def Let_def randint_def random_def split_beta)
  moreover have "case us_trial beta J k_bias M0 L (lattice, M, g) of
      Inl e \<Rightarrow> True
    | Inr (lattice', M', g') \<Rightarrow>
        lattice' \<in>
          {lattice, set_cell lattice (fst (randint 0 L g)) (fst (randint 0 L (stl g)))
                      (- cell lattice (fst (randint 0 L g)) (fst (randint 0 L (stl g))))}"
    by (simp add: us_trial_def Let_def randint_def random_def split_beta)
  ultimately show ?thesis
    by blast
qed

end
